theory Spec2Isabelle
  imports Complex_Main
begin

section \<open>Rate limiter of webliAI-backend: data model\<close>

text \<open>
  The TypeScript sources use one numeric type, \<open>number\<close>. It is embedded as \<^typ>\<open>rat\<close>:
  exact arithmetic, no rounding, no \<open>NaN\<close> and no infinity. The only divisions of the
  code are by \<open>1000\<close>, by \<open>config.duration\<close> and by the refill rate
  \<open>config.points / config.duration\<close>; the theorems that depend on a quotient assume a
  valid configuration (\<open>0 < duration\<close>, \<open>1 \<le> points\<close>), where no division by zero
  happens. \<open>Date.now()\<close> is a parameter \<open>now\<close> of every operation (epoch milliseconds);
  all clock readings taken inside one call are this one value.

  An optional field (\<open>blockDuration?: number\<close>) is an \<open>option\<close>; JavaScript's truthiness
  test on such a field (\<open>if (config.blockDuration)\<close>, \<open>data.blockUntil && ...\<close>) is
  \<open>truthy\<close>: \<open>undefined\<close> and \<open>0\<close> are false.
\<close>

record RateLimitConfig =
  points :: rat
  duration :: rat
  blockDuration :: "rat option"
  keyPrefix :: "string option"
  consumeOnFailure :: "bool option"

record RateLimitData =
  tokens :: rat
  lastRefill :: rat
  consumed :: rat
  blockUntil :: "rat option"

text \<open>
  \<open>RateLimitResult\<close>. Its field \<open>consumed\<close> is named \<open>res_consumed\<close> here, since
  \<open>RateLimitData\<close> has a field of the same name. \<open>isBlocked?: boolean\<close> is an option:
  \<open>None\<close> is a result object without the field.
\<close>

record RateLimitResult =
  allowed :: bool
  remaining :: rat
  limit :: rat
  resetAt :: rat
  retryAfter :: rat
  res_consumed :: rat
  isBlocked :: "bool option"

definition truthy :: "rat option \<Rightarrow> bool" where
  "truthy v = (case v of None \<Rightarrow> False | Some x \<Rightarrow> x \<noteq> 0)"

text \<open>\<open>v || d\<close> on an optional number.\<close>

definition or_default :: "rat option \<Rightarrow> rat \<Rightarrow> rat" where
  "or_default v d = (case v of None \<Rightarrow> d | Some x \<Rightarrow> if x \<noteq> 0 then x else d)"

text \<open>A default parameter \<open>points: number = 1\<close>.\<close>

definition param_default :: "rat option \<Rightarrow> rat \<Rightarrow> rat" where
  "param_default v d = (case v of None \<Rightarrow> d | Some x \<Rightarrow> x)"

section \<open>Storage\<close>

text \<open>
  An exception thrown (a promise rejected) by a backend or a strategy. Every operation
  returns the value or the error, and the backend's state after the call.
\<close>

datatype error = StorageError string

text \<open>
  \<open>IRateLimitStorage\<close>: \<open>get\<close>, \<open>set\<close> and \<open>delete\<close> over a backend state \<open>'s\<close>.
  The last argument of each is the clock reading of the call.
\<close>

record 's IRateLimitStorage =
  storage_get :: "'s \<Rightarrow> string \<Rightarrow> rat \<Rightarrow> (error + RateLimitData option) \<times> 's"
  storage_set :: "'s \<Rightarrow> string \<Rightarrow> RateLimitData \<Rightarrow> rat \<Rightarrow> rat \<Rightarrow> (error + unit) \<times> 's"
  storage_delete :: "'s \<Rightarrow> string \<Rightarrow> rat \<Rightarrow> (error + unit) \<times> 's"

subsection \<open>BaseRateLimitStorage and MemoryRateLimitStorage\<close>

record CacheEntry =
  data :: RateLimitData
  expiresAt :: rat

record MemoryRateLimitStorage =
  storageKeyPrefix :: string
  cache :: "string \<rightharpoonup> CacheEntry"

text \<open>\<open>BaseRateLimitStorage.buildKey\<close>: \<open>`${this.keyPrefix}:${key}`\<close>.\<close>

definition base_buildKey :: "string \<Rightarrow> string \<Rightarrow> string" where
  "base_buildKey prefix key = prefix @ '':'' @ key"

text \<open>The constructor: \<open>keyPrefix\<close> defaults to \<open>ratelimit\<close>, the cache is empty.\<close>

definition new_MemoryRateLimitStorage :: "string option \<Rightarrow> MemoryRateLimitStorage" where
  "new_MemoryRateLimitStorage kp =
     \<lparr>storageKeyPrefix = (case kp of None \<Rightarrow> ''ratelimit'' | Some p \<Rightarrow> p), cache = Map.empty\<rparr>"

text \<open>\<open>get\<close>: an expired entry is deleted from the cache and reported absent.\<close>

definition memory_get ::
  "MemoryRateLimitStorage \<Rightarrow> string \<Rightarrow> rat \<Rightarrow> (error + RateLimitData option) \<times> MemoryRateLimitStorage"
where
  "memory_get st key now =
     (let fullKey = base_buildKey (storageKeyPrefix st) key in
      case cache st fullKey of
        None \<Rightarrow> (Inr None, st)
      | Some entry \<Rightarrow>
          if now > expiresAt entry
          then (Inr None, st\<lparr>cache := (cache st)(fullKey := None)\<rparr>)
          else (Inr (Some (data entry)), st))"

definition memory_set ::
  "MemoryRateLimitStorage \<Rightarrow> string \<Rightarrow> RateLimitData \<Rightarrow> rat \<Rightarrow> rat \<Rightarrow> (error + unit) \<times> MemoryRateLimitStorage"
where
  "memory_set st key d ttlInSeconds now =
     (let fullKey = base_buildKey (storageKeyPrefix st) key;
          expires = now + ttlInSeconds * 1000
      in (Inr (), st\<lparr>cache := (cache st)(fullKey \<mapsto> \<lparr>data = d, expiresAt = expires\<rparr>)\<rparr>))"

definition memory_delete ::
  "MemoryRateLimitStorage \<Rightarrow> string \<Rightarrow> rat \<Rightarrow> (error + unit) \<times> MemoryRateLimitStorage"
where
  "memory_delete st key now =
     (let fullKey = base_buildKey (storageKeyPrefix st) key
      in (Inr (), st\<lparr>cache := (cache st)(fullKey := None)\<rparr>))"

definition MemoryStorage :: "MemoryRateLimitStorage IRateLimitStorage" where
  "MemoryStorage =
     \<lparr>storage_get = memory_get, storage_set = memory_set, storage_delete = memory_delete\<rparr>"

text \<open>
  What a caller of \<open>get\<close> at time \<open>now\<close> observes under a full storage key: the record, or
  nothing when there is no entry or the entry's time-to-live has elapsed.
\<close>

definition stored_record :: "MemoryRateLimitStorage \<Rightarrow> string \<Rightarrow> rat \<Rightarrow> RateLimitData option" where
  "stored_record st fullKey now =
     (case cache st fullKey of
        None \<Rightarrow> None
      | Some entry \<Rightarrow> if now > expiresAt entry then None else Some (data entry))"

section \<open>TokenBucketStrategy\<close>

text \<open>
  The strategy object holds the storage and a key prefix (default \<open>tb\<close>); here the
  storage interface \<open>S\<close> and the prefix \<open>kp\<close> are the first two arguments of each method
  and the backend state is passed through.
\<close>

definition tb_buildKey :: "string \<Rightarrow> string \<Rightarrow> string" where
  "tb_buildKey kp identifier = kp @ '':'' @ identifier"

definition getRefillRate :: "RateLimitConfig \<Rightarrow> rat" where
  "getRefillRate config = points config / duration config"

definition refillTokens :: "RateLimitData \<Rightarrow> RateLimitConfig \<Rightarrow> rat \<Rightarrow> RateLimitData" where
  "refillTokens d config now =
     (let refillRate = getRefillRate config;
          elapsed = (now - lastRefill d) / 1000;
          tokensToAdd = elapsed * refillRate;
          newTokens = min (points config) (tokens d + tokensToAdd)
      in \<lparr>tokens = newTokens, lastRefill = now, consumed = consumed d,
          blockUntil = blockUntil d\<rparr>)"

text \<open>The blocked test of \<open>consume\<close> and \<open>getStatus\<close>: \<open>data.blockUntil && data.blockUntil > now\<close>.\<close>

definition blocked_at :: "RateLimitData \<Rightarrow> rat \<Rightarrow> bool" where
  "blocked_at d now = (truthy (blockUntil d) \<and> the (blockUntil d) > now)"

definition blocked_result :: "RateLimitData \<Rightarrow> RateLimitConfig \<Rightarrow> rat \<Rightarrow> RateLimitResult" where
  "blocked_result d config now =
     \<lparr>allowed = False, remaining = 0, limit = points config,
      resetAt = the (blockUntil d),
      retryAfter = of_int \<lceil>(the (blockUntil d) - now) / 1000\<rceil>,
      res_consumed = consumed d, isBlocked = Some True\<rparr>"

definition TokenBucketStrategy_consume ::
  "'s IRateLimitStorage \<Rightarrow> string \<Rightarrow> 's \<Rightarrow> string \<Rightarrow> rat option \<Rightarrow> RateLimitConfig \<Rightarrow> rat
   \<Rightarrow> (error + RateLimitResult) \<times> 's"
where
  "TokenBucketStrategy_consume S kp st identifier pts config now =
     (let cost = param_default pts 1;
          key = tb_buildKey kp identifier
      in case storage_get S st key now of
           (Inl e, st1) \<Rightarrow> (Inl e, st1)
         | (Inr got, st1) \<Rightarrow>
             (let data0 = (case got of
                             None \<Rightarrow> \<lparr>tokens = points config, lastRefill = now, consumed = 0,
                                      blockUntil = None\<rparr>
                           | Some d \<Rightarrow> d)
              in if blocked_at data0 now then (Inr (blocked_result data0 config now), st1)
                 else
                   (let data1 = refillTokens data0 config now
                    in if tokens data1 < cost
                       then
                         (let retry = of_int \<lceil>(cost - tokens data1) / getRefillRate config\<rceil>;
                              data2 = (if truthy (blockDuration config)
                                       then data1\<lparr>blockUntil :=
                                              Some (now + the (blockDuration config) * 1000)\<rparr>
                                       else data1)
                          in case storage_set S st1 key data2
                                    (duration config + or_default (blockDuration config) 60) now of
                               (Inl e, st2) \<Rightarrow> (Inl e, st2)
                             | (Inr u, st2) \<Rightarrow>
                                 (Inr \<lparr>allowed = False, remaining = of_int \<lfloor>tokens data2\<rfloor>,
                                       limit = points config, resetAt = now + retry * 1000,
                                       retryAfter = retry, res_consumed = consumed data2,
                                       isBlocked = None\<rparr>, st2))
                       else
                         (let data2 = data1\<lparr>tokens := tokens data1 - cost,
                                            consumed := consumed data1 + cost\<rparr>;
                              tokensNeeded = points config - tokens data2;
                              secondsToFull = tokensNeeded / getRefillRate config;
                              reset = now + secondsToFull * 1000
                          in case storage_set S st1 key data2 (duration config) now of
                               (Inl e, st2) \<Rightarrow> (Inl e, st2)
                             | (Inr u, st2) \<Rightarrow>
                                 (Inr \<lparr>allowed = True, remaining = of_int \<lfloor>tokens data2\<rfloor>,
                                       limit = points config, resetAt = of_int \<lfloor>reset\<rfloor>,
                                       retryAfter = 0, res_consumed = consumed data2,
                                       isBlocked = None\<rparr>, st2)))))"

definition TokenBucketStrategy_getStatus ::
  "'s IRateLimitStorage \<Rightarrow> string \<Rightarrow> 's \<Rightarrow> string \<Rightarrow> RateLimitConfig \<Rightarrow> rat
   \<Rightarrow> (error + RateLimitResult) \<times> 's"
where
  "TokenBucketStrategy_getStatus S kp st identifier config now =
     (let key = tb_buildKey kp identifier
      in case storage_get S st key now of
           (Inl e, st1) \<Rightarrow> (Inl e, st1)
         | (Inr None, st1) \<Rightarrow>
             (Inr \<lparr>allowed = True, remaining = points config, limit = points config,
                   resetAt = now, retryAfter = 0, res_consumed = 0, isBlocked = None\<rparr>, st1)
         | (Inr (Some d), st1) \<Rightarrow>
             if blocked_at d now then (Inr (blocked_result d config now), st1)
             else
               (let data1 = refillTokens d config now;
                    tokensNeeded = points config - tokens data1;
                    secondsToFull = tokensNeeded / getRefillRate config;
                    reset = now + secondsToFull * 1000
                in (Inr \<lparr>allowed = (tokens data1 \<ge> 1), remaining = of_int \<lfloor>tokens data1\<rfloor>,
                         limit = points config, resetAt = of_int \<lfloor>reset\<rfloor>, retryAfter = 0,
                         res_consumed = consumed data1, isBlocked = None\<rparr>, st1)))"

definition TokenBucketStrategy_reset ::
  "'s IRateLimitStorage \<Rightarrow> string \<Rightarrow> 's \<Rightarrow> string \<Rightarrow> rat \<Rightarrow> (error + unit) \<times> 's"
where
  "TokenBucketStrategy_reset S kp st identifier now =
     storage_delete S st (tb_buildKey kp identifier) now"

definition TokenBucketStrategy_isBlocked ::
  "'s IRateLimitStorage \<Rightarrow> string \<Rightarrow> 's \<Rightarrow> string \<Rightarrow> rat \<Rightarrow> (error + bool) \<times> 's"
where
  "TokenBucketStrategy_isBlocked S kp st identifier now =
     (case storage_get S st (tb_buildKey kp identifier) now of
        (Inl e, st1) \<Rightarrow> (Inl e, st1)
      | (Inr None, st1) \<Rightarrow> (Inr False, st1)
      | (Inr (Some d), st1) \<Rightarrow>
          if \<not> truthy (blockUntil d) then (Inr False, st1)
          else (Inr (now < the (blockUntil d)), st1))"

definition TokenBucketStrategy_block ::
  "'s IRateLimitStorage \<Rightarrow> string \<Rightarrow> 's \<Rightarrow> string \<Rightarrow> rat \<Rightarrow> rat \<Rightarrow> (error + unit) \<times> 's"
where
  "TokenBucketStrategy_block S kp st identifier dur now =
     (let key = tb_buildKey kp identifier;
          until = now + dur * 1000;
          d = \<lparr>tokens = 0, lastRefill = now, consumed = 0, blockUntil = Some until\<rparr>
      in storage_set S st key d (dur + 60) now)"

section \<open>RateLimiter\<close>

text \<open>\<open>IRateLimitStrategy\<close>: the limiter calls its strategy through this interface.\<close>

record 's IRateLimitStrategy =
  strategy_consume ::
    "'s \<Rightarrow> string \<Rightarrow> rat option \<Rightarrow> RateLimitConfig \<Rightarrow> rat \<Rightarrow> (error + RateLimitResult) \<times> 's"
  strategy_reset :: "'s \<Rightarrow> string \<Rightarrow> rat \<Rightarrow> (error + unit) \<times> 's"
  strategy_getStatus ::
    "'s \<Rightarrow> string \<Rightarrow> RateLimitConfig \<Rightarrow> rat \<Rightarrow> (error + RateLimitResult) \<times> 's"
  strategy_block :: "'s \<Rightarrow> string \<Rightarrow> rat \<Rightarrow> rat \<Rightarrow> (error + unit) \<times> 's"
  strategy_isBlocked :: "'s \<Rightarrow> string \<Rightarrow> rat \<Rightarrow> (error + bool) \<times> 's"

text \<open>\<open>new TokenBucketStrategy(storage, keyPrefix)\<close>.\<close>

definition TokenBucketStrategy :: "'s IRateLimitStorage \<Rightarrow> string \<Rightarrow> 's IRateLimitStrategy" where
  "TokenBucketStrategy S kp =
     \<lparr>strategy_consume = TokenBucketStrategy_consume S kp,
      strategy_reset = TokenBucketStrategy_reset S kp,
      strategy_getStatus = TokenBucketStrategy_getStatus S kp,
      strategy_block = TokenBucketStrategy_block S kp,
      strategy_isBlocked = TokenBucketStrategy_isBlocked S kp\<rparr>"

text \<open>
  \<open>Partial<RateLimitConfig>\<close>: every field may be missing. \<open>mergeConfig\<close> is the object
  spread \<open>{...this.defaultConfig, ...config}\<close>; a missing \<open>config\<close> argument spreads nothing.
\<close>

record RateLimitConfigPartial =
  p_points :: "rat option"
  p_duration :: "rat option"
  p_blockDuration :: "rat option"
  p_keyPrefix :: "string option"
  p_consumeOnFailure :: "bool option"

definition mergeConfig :: "RateLimitConfig \<Rightarrow> RateLimitConfigPartial option \<Rightarrow> RateLimitConfig" where
  "mergeConfig dflt config =
     (case config of
        None \<Rightarrow> dflt
      | Some c \<Rightarrow>
          \<lparr>points = (case p_points c of None \<Rightarrow> points dflt | Some v \<Rightarrow> v),
           duration = (case p_duration c of None \<Rightarrow> duration dflt | Some v \<Rightarrow> v),
           blockDuration = (case p_blockDuration c of None \<Rightarrow> blockDuration dflt | Some v \<Rightarrow> Some v),
           keyPrefix = (case p_keyPrefix c of None \<Rightarrow> keyPrefix dflt | Some v \<Rightarrow> Some v),
           consumeOnFailure =
             (case p_consumeOnFailure c of None \<Rightarrow> consumeOnFailure dflt | Some v \<Rightarrow> Some v)\<rparr>)"

text \<open>
  The limiter object. \<open>storage\<close> is the state of the backend it owns. \<open>onError\<close> says
  whether a callback is registered; \<open>onErrorCalls\<close> lists the errors the callback has been
  called with, and \<open>logged\<close> the errors passed to \<open>logger.errorWithContext\<close>, oldest first.
  The callback, the logger and the key generator do not throw.
\<close>

record 's RateLimiter =
  storage :: 's
  strategy :: "'s IRateLimitStrategy"
  defaultConfig :: RateLimitConfig
  keyGenerator :: "string \<Rightarrow> string option \<Rightarrow> string"
  onError :: bool
  onErrorCalls :: "error list"
  logged :: "error list"
  bypassList :: "string set"

text \<open>\<open>namespace ? `${namespace}:${identifier}` : identifier\<close>; the empty string is falsy.\<close>

definition defaultKeyGenerator :: "string \<Rightarrow> string option \<Rightarrow> string" where
  "defaultKeyGenerator identifier namespace =
     (case namespace of
        None \<Rightarrow> identifier
      | Some ns \<Rightarrow> if ns \<noteq> [] then ns @ '':'' @ identifier else identifier)"

text \<open>The constructor, with the defaults it fills in for missing options.\<close>

definition new_RateLimiter ::
  "'s IRateLimitStorage \<Rightarrow> 's \<Rightarrow> 's IRateLimitStrategy option \<Rightarrow> RateLimitConfig option
   \<Rightarrow> (string \<Rightarrow> string option \<Rightarrow> string) option \<Rightarrow> bool \<Rightarrow> 's RateLimiter"
where
  "new_RateLimiter S st strat dflt keygen onErr =
     \<lparr>storage = st,
      strategy = (case strat of None \<Rightarrow> TokenBucketStrategy S ''tb'' | Some x \<Rightarrow> x),
      defaultConfig =
        (case dflt of
           None \<Rightarrow> \<lparr>points = 5, duration = 60, blockDuration = None, keyPrefix = Some ''rl'',
                    consumeOnFailure = None\<rparr>
         | Some c \<Rightarrow> c),
      keyGenerator = (case keygen of None \<Rightarrow> defaultKeyGenerator | Some g \<Rightarrow> g),
      onError = onErr, onErrorCalls = [], logged = [], bypassList = {}\<rparr>"

text \<open>The character class \<open>[a-zA-Z0-9._-]\<close> of \<open>sanitizeIdentifier\<close>.\<close>

definition safeChar :: "char \<Rightarrow> bool" where
  "safeChar c =
     (c \<in> set ''abcdefghijklmnopqrstuvwxyzABCDEFGHIJKLMNOPQRSTUVWXYZ0123456789._-'')"

definition sanitizeIdentifier :: "string \<Rightarrow> string" where
  "sanitizeIdentifier identifier = map (\<lambda>c. if safeChar c then c else CHR ''_'') identifier"

definition shouldBypass :: "'s RateLimiter \<Rightarrow> string \<Rightarrow> bool" where
  "shouldBypass L identifier = (identifier \<in> bypassList L)"

definition addBypass :: "'s RateLimiter \<Rightarrow> string \<Rightarrow> 's RateLimiter" where
  "addBypass L identifier = L\<lparr>bypassList := insert identifier (bypassList L)\<rparr>"

definition removeBypass :: "'s RateLimiter \<Rightarrow> string \<Rightarrow> 's RateLimiter" where
  "removeBypass L identifier = L\<lparr>bypassList := bypassList L - {identifier}\<rparr>"

text \<open>The result returned by the \<open>catch\<close> blocks of \<open>consume\<close> and \<open>getStatus\<close>.\<close>

definition failOpen :: "'s RateLimiter \<Rightarrow> rat \<Rightarrow> RateLimitResult" where
  "failOpen L now =
     \<lparr>allowed = True, remaining = points (defaultConfig L), limit = points (defaultConfig L),
      resetAt = now + duration (defaultConfig L) * 1000, retryAfter = 0, res_consumed = 0,
      isBlocked = None\<rparr>"

definition bypassResult :: "rat \<Rightarrow> RateLimitResult" where
  "bypassResult now =
     \<lparr>allowed = True, remaining = 999999, limit = 999999, resetAt = now + 999999,
      retryAfter = 0, res_consumed = 0, isBlocked = None\<rparr>"

definition RateLimiter_consume ::
  "'s RateLimiter \<Rightarrow> string \<Rightarrow> rat option \<Rightarrow> RateLimitConfigPartial option \<Rightarrow> string option
   \<Rightarrow> rat \<Rightarrow> RateLimitResult \<times> 's RateLimiter"
where
  "RateLimiter_consume L identifier pts config namespace now =
     (let cost = param_default pts 1;
          safeIdentifier = sanitizeIdentifier identifier
      in if shouldBypass L safeIdentifier then (bypassResult now, L)
         else
           (let key = keyGenerator L safeIdentifier namespace;
                finalConfig = mergeConfig (defaultConfig L) config
            in case strategy_consume (strategy L) (storage L) key (Some cost) finalConfig now of
                 (Inr result, st1) \<Rightarrow> (result, L\<lparr>storage := st1\<rparr>)
               | (Inl e, st1) \<Rightarrow>
                   (failOpen L now,
                    L\<lparr>storage := st1, logged := logged L @ [e],
                      onErrorCalls := (if onError L then onErrorCalls L @ [e]
                                       else onErrorCalls L)\<rparr>)))"

definition RateLimiter_getStatus ::
  "'s RateLimiter \<Rightarrow> string \<Rightarrow> RateLimitConfigPartial option \<Rightarrow> string option \<Rightarrow> rat
   \<Rightarrow> RateLimitResult \<times> 's RateLimiter"
where
  "RateLimiter_getStatus L identifier config namespace now =
     (let safeIdentifier = sanitizeIdentifier identifier;
          key = keyGenerator L safeIdentifier namespace;
          finalConfig = mergeConfig (defaultConfig L) config
      in case strategy_getStatus (strategy L) (storage L) key finalConfig now of
           (Inr result, st1) \<Rightarrow> (result, L\<lparr>storage := st1\<rparr>)
         | (Inl e, st1) \<Rightarrow>
             (failOpen L now,
              L\<lparr>storage := st1,
                onErrorCalls := (if onError L then onErrorCalls L @ [e] else onErrorCalls L)\<rparr>))"

text \<open>\<open>reset\<close>, \<open>block\<close> and \<open>isBlocked\<close> have no \<open>try\<close>: an error of the strategy propagates.\<close>

definition RateLimiter_reset ::
  "'s RateLimiter \<Rightarrow> string \<Rightarrow> string option \<Rightarrow> rat \<Rightarrow> (error + unit) \<times> 's RateLimiter"
where
  "RateLimiter_reset L identifier namespace now =
     (let safeIdentifier = sanitizeIdentifier identifier;
          key = keyGenerator L safeIdentifier namespace
      in case strategy_reset (strategy L) (storage L) key now of
           (r, st1) \<Rightarrow> (r, L\<lparr>storage := st1\<rparr>))"

definition RateLimiter_block ::
  "'s RateLimiter \<Rightarrow> string \<Rightarrow> rat \<Rightarrow> string option \<Rightarrow> rat \<Rightarrow> (error + unit) \<times> 's RateLimiter"
where
  "RateLimiter_block L identifier dur namespace now =
     (let safeIdentifier = sanitizeIdentifier identifier;
          key = keyGenerator L safeIdentifier namespace
      in case strategy_block (strategy L) (storage L) key dur now of
           (r, st1) \<Rightarrow> (r, L\<lparr>storage := st1\<rparr>))"

definition RateLimiter_isBlocked ::
  "'s RateLimiter \<Rightarrow> string \<Rightarrow> string option \<Rightarrow> rat \<Rightarrow> (error + bool) \<times> 's RateLimiter"
where
  "RateLimiter_isBlocked L identifier namespace now =
     (let safeIdentifier = sanitizeIdentifier identifier;
          key = keyGenerator L safeIdentifier namespace
      in case strategy_isBlocked (strategy L) (storage L) key now of
           (r, st1) \<Rightarrow> (r, L\<lparr>storage := st1\<rparr>))"

text \<open>
  The storage key a limiter operation reaches with the default strategy (prefix \<open>tb\<close>), the
  default key generator and a memory backend of prefix \<open>sp\<close>.
\<close>

definition limiter_storage_key :: "string \<Rightarrow> string \<Rightarrow> string option \<Rightarrow> string" where
  "limiter_storage_key sp identifier namespace =
     base_buildKey sp
       (tb_buildKey ''tb'' (defaultKeyGenerator (sanitizeIdentifier identifier) namespace))"

section \<open>Sequences of calls\<close>

text \<open>\<open>consume\<close> called once at each of the given times, for one identifier, cost and config.\<close>

fun consume_seq ::
  "'s IRateLimitStorage \<Rightarrow> string \<Rightarrow> 's \<Rightarrow> string \<Rightarrow> rat option \<Rightarrow> RateLimitConfig \<Rightarrow> rat list
   \<Rightarrow> (error + RateLimitResult) list \<times> 's"
where
  "consume_seq S kp st identifier pts config [] = ([], st)"
| "consume_seq S kp st identifier pts config (t # ts) =
     (case TokenBucketStrategy_consume S kp st identifier pts config t of
        (r, st1) \<Rightarrow>
          (case consume_seq S kp st1 identifier pts config ts of
             (rs, st2) \<Rightarrow> (r # rs, st2)))"

text \<open>The operations of the strategy that a caller can issue, each at a time.\<close>

datatype operation =
  Consume string rat
| GetStatus string
| Block string rat
| Reset string

fun apply_operation ::
  "'s IRateLimitStorage \<Rightarrow> string \<Rightarrow> RateLimitConfig \<Rightarrow> 's \<Rightarrow> operation \<times> rat \<Rightarrow> 's"
where
  "apply_operation S kp config st (Consume i c, now) =
     snd (TokenBucketStrategy_consume S kp st i (Some c) config now)"
| "apply_operation S kp config st (GetStatus i, now) =
     snd (TokenBucketStrategy_getStatus S kp st i config now)"
| "apply_operation S kp config st (Block i d, now) =
     snd (TokenBucketStrategy_block S kp st i d now)"
| "apply_operation S kp config st (Reset i, now) =
     snd (TokenBucketStrategy_reset S kp st i now)"

definition run_operations ::
  "'s IRateLimitStorage \<Rightarrow> string \<Rightarrow> RateLimitConfig \<Rightarrow> 's \<Rightarrow> (operation \<times> rat) list \<Rightarrow> 's"
where
  "run_operations S kp config st ops = foldl (apply_operation S kp config) st ops"

text \<open>The times of a sequence of operations never decrease, starting at \<open>t\<close>.\<close>

fun times_from :: "rat \<Rightarrow> (operation \<times> rat) list \<Rightarrow> bool" where
  "times_from t [] = True"
| "times_from t ((x, t1) # ops) = (t \<le> t1 \<and> times_from t1 ops)"

fun cost_nonneg :: "operation \<times> rat \<Rightarrow> bool" where
  "cost_nonneg (Consume i c, t) = (0 \<le> c)"
| "cost_nonneg (x, t) = True"

text \<open>
  Every record held by a memory backend has a balance between \<open>0\<close> and the capacity, and
  was last refilled no later than \<open>t\<close>.
\<close>

definition tokens_in_range :: "RateLimitConfig \<Rightarrow> MemoryRateLimitStorage \<Rightarrow> bool" where
  "tokens_in_range config st =
     (\<forall>k e. cache st k = Some e \<longrightarrow> 0 \<le> tokens (data e) \<and> tokens (data e) \<le> points config)"

definition refilled_by :: "rat \<Rightarrow> MemoryRateLimitStorage \<Rightarrow> bool" where
  "refilled_by t st = (\<forall>k e. cache st k = Some e \<longrightarrow> lastRefill (data e) \<le> t)"

section \<open>Concrete scenarios\<close>

text \<open>A memory backend holding one blocked bucket, and a configuration of rate one token per second.\<close>

definition blockedStore :: MemoryRateLimitStorage where
  "blockedStore =
     \<lparr>storageKeyPrefix = ''ratelimit'',
      cache = [''ratelimit:tb:u1'' \<mapsto>
                 \<lparr>data = \<lparr>tokens = 3, lastRefill = 1000, consumed = 7, blockUntil = Some 31000\<rparr>,
                  expiresAt = 91000\<rparr>]\<rparr>"

definition cfg10 :: RateLimitConfig where
  "cfg10 = \<lparr>points = 10, duration = 10, blockDuration = None, keyPrefix = None,
            consumeOnFailure = None\<rparr>"

text \<open>Backends whose \<open>get\<close>, or whose \<open>set\<close>, always throws.\<close>

definition failingGet :: "MemoryRateLimitStorage IRateLimitStorage" where
  "failingGet =
     MemoryStorage\<lparr>storage_get := (\<lambda>st key now. (Inl (StorageError ''get failed''), st))\<rparr>"

definition failingSet :: "MemoryRateLimitStorage IRateLimitStorage" where
  "failingSet =
     MemoryStorage\<lparr>storage_set := (\<lambda>st key d ttl now. (Inl (StorageError ''set failed''), st))\<rparr>"

definition cfg1 :: RateLimitConfig where
  "cfg1 = \<lparr>points = 1, duration = 60, blockDuration = None, keyPrefix = None,
           consumeOnFailure = None\<rparr>"

text \<open>Limiters over an empty memory backend, with the default strategy and key generator.\<close>

definition limiter1 :: "MemoryRateLimitStorage RateLimiter" where
  "limiter1 =
     new_RateLimiter MemoryStorage (new_MemoryRateLimitStorage None) None (Some cfg1) None False"

definition limiterDown :: "MemoryRateLimitStorage RateLimiter" where
  "limiterDown =
     new_RateLimiter failingGet (new_MemoryRateLimitStorage None) None None None True"

definition limiterDownSet :: "MemoryRateLimitStorage RateLimiter" where
  "limiterDownSet =
     new_RateLimiter failingSet (new_MemoryRateLimitStorage None) None None None True"

text \<open>
  Names for the intermediate values of \<open>consume\<close>: the record it works on (the stored one,
  or a fresh full bucket), and the record a rejection persists.
\<close>

definition loadedData :: "RateLimitData option \<Rightarrow> RateLimitConfig \<Rightarrow> rat \<Rightarrow> RateLimitData" where
  "loadedData got config now =
     (case got of
        None \<Rightarrow> \<lparr>tokens = points config, lastRefill = now, consumed = 0, blockUntil = None\<rparr>
      | Some d \<Rightarrow> d)"

definition rejectedData :: "RateLimitData \<Rightarrow> RateLimitConfig \<Rightarrow> rat \<Rightarrow> RateLimitData" where
  "rejectedData data1 config now =
     (if truthy (blockDuration config)
      then data1\<lparr>blockUntil := Some (now + the (blockDuration config) * 1000)\<rparr>
      else data1)"

definition cfgBlock :: RateLimitConfig where
  "cfgBlock = \<lparr>points = 1, duration = 60, blockDuration = Some 30, keyPrefix = None,
               consumeOnFailure = None\<rparr>"

text \<open>A memory backend holding an exhausted bucket.\<close>

definition drainedStore :: MemoryRateLimitStorage where
  "drainedStore =
     \<lparr>storageKeyPrefix = ''ratelimit'',
      cache = [''ratelimit:tb:u1'' \<mapsto>
                 \<lparr>data = \<lparr>tokens = 0, lastRefill = 1000, consumed = 1, blockUntil = None\<rparr>,
                  expiresAt = 61000\<rparr>]\<rparr>"

text \<open>
  The bucket under a full storage key has \<open>k\<close> tokens at \<open>now\<close>: either nothing is stored
  and the capacity is \<open>k\<close>, or the stored record has \<open>k\<close> tokens, was refilled at \<open>now\<close> and
  carries no block.
\<close>

definition bucket_with :: "MemoryRateLimitStorage \<Rightarrow> string \<Rightarrow> RateLimitConfig \<Rightarrow> rat \<Rightarrow> nat \<Rightarrow> bool" where
  "bucket_with st fk config now k =
     (case stored_record st fk now of
        None \<Rightarrow> points config = of_nat k
      | Some d \<Rightarrow> tokens d = of_nat k \<and> lastRefill d = now \<and> blockUntil d = None)"

definition cfg2 :: RateLimitConfig where
  "cfg2 = \<lparr>points = 2, duration = 60, blockDuration = None, keyPrefix = None,
            consumeOnFailure = None\<rparr>"

text \<open>The bucket of \<open>u1\<close> after ten calls of \<open>consume\<close> at time \<open>1000\<close> under \<open>cfg10\<close>.\<close>

definition drained10 :: MemoryRateLimitStorage where
  "drained10 =
     \<lparr>storageKeyPrefix = ''ratelimit'',
      cache = [''ratelimit:tb:u1'' \<mapsto>
                 \<lparr>data = \<lparr>tokens = 0, lastRefill = 1000, consumed = 10, blockUntil = None\<rparr>,
                  expiresAt = 11000\<rparr>]\<rparr>"

text \<open>\<open>drainedStore\<close> after a rejected \<open>consume\<close> at time \<open>1000\<close> under \<open>cfgBlock\<close>.\<close>

definition blockedAfter :: MemoryRateLimitStorage where
  "blockedAfter =
     \<lparr>storageKeyPrefix = ''ratelimit'',
      cache = [''ratelimit:tb:u1'' \<mapsto>
                 \<lparr>data = \<lparr>tokens = 0, lastRefill = 1000, consumed = 1, blockUntil = Some 31000\<rparr>,
                  expiresAt = 91000\<rparr>]\<rparr>"

text \<open>A run of operations on two identifiers, at times that never decrease.\<close>

definition opsExample :: "(operation \<times> rat) list" where
  "opsExample =
     [(Consume ''u1'' 1, 0), (Consume ''u1'' 1, 0), (Consume ''u1'' 1, 0), (GetStatus ''u1'', 15000),
      (Block ''u2'' 5, 20000), (Consume ''u1'' 1, 45000), (Reset ''u2'', 45000)]"

section \<open>Properties of the storage and of the strategy\<close>

lemma memory_get_fst:
  "fst (memory_get st key now) =
     Inr (stored_record st (base_buildKey (storageKeyPrefix st) key) now)"
  by (simp add: memory_get_def stored_record_def Let_def split: option.splits)

lemma memory_get_live:
  assumes "cache st (base_buildKey (storageKeyPrefix st) key) = Some entry"
      and "now \<le> expiresAt entry"
  shows "memory_get st key now = (Inr (Some (data entry)), st)"
  using assms by (simp add: memory_get_def Let_def)

lemma tb_consume_blocked:
  assumes "storage_get S st (tb_buildKey kp identifier) now = (Inr (Some d), st1)"
      and "blocked_at d now"
  shows "TokenBucketStrategy_consume S kp st identifier pts config now =
           (Inr (blocked_result d config now), st1)"
  using assms by (simp add: TokenBucketStrategy_consume_def Let_def)

text \<open>
  C5. A bucket that the memory backend holds, not expired, whose \<open>blockUntil\<close> is later
  than \<open>now\<close> (an epoch time, so not negative): \<open>consume\<close> returns \<open>allowed = false\<close>,
  \<open>remaining = 0\<close>, \<open>isBlocked = true\<close>, \<open>retryAfter = ceil((blockUntil - now) / 1000)\<close> and
  \<open>resetAt = blockUntil\<close>, and the backend's state after the call is the state before it:
  no balance is recomputed and nothing is written.
\<close>

theorem blocked_consume_short_circuits:
  assumes "cache st (base_buildKey (storageKeyPrefix st) (tb_buildKey kp identifier)) = Some entry"
      and "now \<le> expiresAt entry"
      and "blockUntil (data entry) = Some b"
      and "now < b" and "0 \<le> now"
  shows "TokenBucketStrategy_consume MemoryStorage kp st identifier pts config now =
           (Inr \<lparr>allowed = False, remaining = 0, limit = points config, resetAt = b,
                 retryAfter = of_int \<lceil>(b - now) / 1000\<rceil>,
                 res_consumed = consumed (data entry), isBlocked = Some True\<rparr>, st)"
proof -
  have g: "storage_get MemoryStorage st (tb_buildKey kp identifier) now =
             (Inr (Some (data entry)), st)"
    using assms(1,2) by (simp add: MemoryStorage_def memory_get_live)
  have b: "blocked_at (data entry) now"
    using assms(3,4,5) by (simp add: blocked_at_def truthy_def)
  show ?thesis
    using tb_consume_blocked[OF g b] assms(3) by (simp add: blocked_result_def)
qed

theorem blocked_consume_short_circuits_witness:
  "TokenBucketStrategy_consume MemoryStorage ''tb'' blockedStore ''u1'' (Some 1) cfg10 6000 =
     (Inr \<lparr>allowed = False, remaining = 0, limit = 10, resetAt = 31000, retryAfter = 25,
           res_consumed = 7, isBlocked = Some True\<rparr>, blockedStore)"
  using blocked_consume_short_circuits[of blockedStore "''tb''" "''u1''"
          "\<lparr>data = \<lparr>tokens = 3, lastRefill = 1000, consumed = 7, blockUntil = Some 31000\<rparr>,
            expiresAt = 91000\<rparr>"
          6000 31000 "Some 1" cfg10]
  by (simp add: blockedStore_def cfg10_def base_buildKey_def tb_buildKey_def)

section \<open>Properties of the limiter\<close>

text \<open>An error of the backend's \<open>get\<close> is an error of the strategy's \<open>consume\<close>.\<close>

lemma tb_consume_get_error:
  assumes "storage_get S st (tb_buildKey kp identifier) now = (Inl e, st1)"
  shows "TokenBucketStrategy_consume S kp st identifier pts config now = (Inl e, st1)"
  using assms by (simp add: TokenBucketStrategy_consume_def Let_def)

lemma down_get:
  "strategy_consume (strategy limiterDown) (storage limiterDown)
     (keyGenerator limiterDown (sanitizeIdentifier ''u1'') None)
     (Some (param_default None 1)) (mergeConfig (defaultConfig limiterDown) None) 0 =
   (Inl (StorageError ''get failed''), new_MemoryRateLimitStorage None)"
  by (simp add: limiterDown_def new_RateLimiter_def TokenBucketStrategy_def
      TokenBucketStrategy_consume_def failingGet_def Let_def)

lemma down_set:
  "strategy_consume (strategy limiterDownSet) (storage limiterDownSet)
     (keyGenerator limiterDownSet (sanitizeIdentifier ''u1'') None)
     (Some (param_default None 1)) (mergeConfig (defaultConfig limiterDownSet) None) 0 =
   (Inl (StorageError ''set failed''), new_MemoryRateLimitStorage None)"
  by (simp add: limiterDownSet_def new_RateLimiter_def TokenBucketStrategy_def
      TokenBucketStrategy_consume_def failingSet_def Let_def MemoryStorage_def memory_get_def
      new_MemoryRateLimitStorage_def mergeConfig_def param_default_def blocked_at_def
      truthy_def refillTokens_def)

text \<open>
  C2. When the strategy's \<open>consume\<close> (and so the storage under it) throws during
  \<open>RateLimiter.consume\<close> for an identifier that is not bypassed, the limiter returns a
  result and no error: \<open>allowed = true\<close>, \<open>remaining\<close> and \<open>limit\<close> equal to the default
  config's \<open>points\<close>, \<open>retryAfter = 0\<close>; a registered \<open>onError\<close> callback is called with that
  error exactly once.
\<close>

theorem consume_fails_open:
  assumes "sanitizeIdentifier identifier \<notin> bypassList L"
      and "strategy_consume (strategy L) (storage L)
             (keyGenerator L (sanitizeIdentifier identifier) namespace)
             (Some (param_default pts 1)) (mergeConfig (defaultConfig L) config) now =
           (Inl e, st1)"
  shows "allowed (fst (RateLimiter_consume L identifier pts config namespace now)) \<and>
         remaining (fst (RateLimiter_consume L identifier pts config namespace now)) =
           points (defaultConfig L) \<and>
         limit (fst (RateLimiter_consume L identifier pts config namespace now)) =
           points (defaultConfig L) \<and>
         retryAfter (fst (RateLimiter_consume L identifier pts config namespace now)) = 0 \<and>
         onErrorCalls (snd (RateLimiter_consume L identifier pts config namespace now)) =
           (if onError L then onErrorCalls L @ [e] else onErrorCalls L)"
  using assms by (simp add: RateLimiter_consume_def Let_def shouldBypass_def failOpen_def)

theorem consume_fails_open_witness:
  "fst (RateLimiter_consume limiterDown ''u1'' None None None 0) =
     \<lparr>allowed = True, remaining = 5, limit = 5, resetAt = 60000, retryAfter = 0,
      res_consumed = 0, isBlocked = None\<rparr> \<and>
   onErrorCalls (snd (RateLimiter_consume limiterDown ''u1'' None None None 0)) =
     [StorageError ''get failed''] \<and>
   onErrorCalls (snd (RateLimiter_consume limiterDownSet ''u1'' None None None 0)) =
     [StorageError ''set failed'']"
proof -
  have b: "sanitizeIdentifier ''u1'' \<notin> bypassList limiterDown"
    by (simp add: limiterDown_def new_RateLimiter_def)
  have b2: "sanitizeIdentifier ''u1'' \<notin> bypassList limiterDownSet"
    by (simp add: limiterDownSet_def new_RateLimiter_def)
  have o: "onError limiterDown" "onErrorCalls limiterDown = []"
    "onError limiterDownSet" "onErrorCalls limiterDownSet = []"
    by (simp_all add: limiterDown_def limiterDownSet_def new_RateLimiter_def)
  have r: "fst (RateLimiter_consume limiterDown ''u1'' None None None 0) =
     \<lparr>allowed = True, remaining = 5, limit = 5, resetAt = 60000, retryAfter = 0,
      res_consumed = 0, isBlocked = None\<rparr>"
    using down_get
    by (simp add: RateLimiter_consume_def Let_def shouldBypass_def failOpen_def
        limiterDown_def new_RateLimiter_def)
  show ?thesis
    using consume_fails_open[OF b down_get] consume_fails_open[OF b2 down_set] o r by simp
qed

text \<open>
  C6. \<open>addBypass\<close> stores the identifier as given, and \<open>consume\<close> looks up the sanitized
  identifier. After \<open>addBypass("::1")\<close> on a limiter of capacity one, \<open>consume("::1")\<close> is
  not bypassed: the first call is an ordinary verdict (\<open>limit = 1\<close>, \<open>remaining = 0\<close>) that
  writes the bucket \<open>ratelimit:tb:__1\<close>, and the second call is rejected.
\<close>

theorem bypass_lost_for_unsafe_identifier:
  "''::1'' \<in> bypassList (addBypass limiter1 ''::1'') \<and>
   fst (RateLimiter_consume (addBypass limiter1 ''::1'') ''::1'' None None None 0) =
     \<lparr>allowed = True, remaining = 0, limit = 1, resetAt = 60000, retryAfter = 0,
      res_consumed = 1, isBlocked = None\<rparr> \<and>
   cache (storage (snd (RateLimiter_consume (addBypass limiter1 ''::1'') ''::1''
                          None None None 0)))
     ''ratelimit:tb:__1'' \<noteq> None \<and>
   allowed (fst (RateLimiter_consume
      (snd (RateLimiter_consume (addBypass limiter1 ''::1'') ''::1'' None None None 0))
      ''::1'' None None None 0)) = False"
  by (simp add: addBypass_def limiter1_def new_RateLimiter_def cfg1_def RateLimiter_consume_def
      Let_def shouldBypass_def sanitizeIdentifier_def safeChar_def defaultKeyGenerator_def
      mergeConfig_def param_default_def TokenBucketStrategy_def TokenBucketStrategy_consume_def
      MemoryStorage_def memory_get_def memory_set_def new_MemoryRateLimitStorage_def
      base_buildKey_def tb_buildKey_def blocked_at_def truthy_def refillTokens_def
      getRefillRate_def or_default_def)

text \<open>
  For an identifier that sanitization leaves as it is, the bypass works with every
  strategy and backend: the sentinel result, and a limiter (its storage included) that is
  the one before the call. After \<open>removeBypass\<close> the identifier is looked up as any other.
\<close>

lemma bypass_safe_identifier:
  assumes "sanitizeIdentifier identifier = identifier"
  shows "RateLimiter_consume (addBypass L identifier) identifier pts config namespace now =
           (\<lparr>allowed = True, remaining = 999999, limit = 999999, resetAt = now + 999999,
             retryAfter = 0, res_consumed = 0, isBlocked = None\<rparr>, addBypass L identifier)"
  using assms
  by (simp add: RateLimiter_consume_def Let_def shouldBypass_def addBypass_def bypassResult_def)

lemma removeBypass_restores:
  assumes "sanitizeIdentifier identifier = identifier"
  shows "\<not> shouldBypass (removeBypass (addBypass L identifier) identifier)
             (sanitizeIdentifier identifier)"
  using assms by (simp add: shouldBypass_def addBypass_def removeBypass_def)

section \<open>The three outcomes of consume on the memory backend\<close>

lemma memory_get_prefix:
  "storageKeyPrefix (snd (memory_get st key now)) = storageKeyPrefix st"
  by (simp add: memory_get_def Let_def split: option.splits)

lemma memory_get_other:
  "k \<noteq> base_buildKey (storageKeyPrefix st) key \<Longrightarrow>
     cache (snd (memory_get st key now)) k = cache st k"
  by (simp add: memory_get_def Let_def split: option.splits)

lemma memory_get_present:
  "stored_record st (base_buildKey (storageKeyPrefix st) key) now = Some d \<Longrightarrow>
     snd (memory_get st key now) = st"
  by (cases "cache st (base_buildKey (storageKeyPrefix st) key)")
     (simp_all add: memory_get_def stored_record_def Let_def split: if_splits)

lemma memory_get_absent:
  "stored_record st (base_buildKey (storageKeyPrefix st) key) now = None \<Longrightarrow>
     cache (snd (memory_get st key now)) (base_buildKey (storageKeyPrefix st) key) = None"
  by (cases "cache st (base_buildKey (storageKeyPrefix st) key)")
     (simp_all add: memory_get_def stored_record_def Let_def split: if_splits)

lemma memory_get_pair:
  "memory_get st key now =
     (Inr (stored_record st (base_buildKey (storageKeyPrefix st) key) now),
      snd (memory_get st key now))"
  by (simp add: prod_eq_iff memory_get_fst)

lemma blocked_at_iff:
  "blocked_at d now = (\<exists>b. blockUntil d = Some b \<and> b \<noteq> 0 \<and> now < b)"
  by (cases "blockUntil d") (auto simp: blocked_at_def truthy_def)

lemma mem_consume_blocked:
  assumes "memory_get st (tb_buildKey kp identifier) now = (Inr got, st1)"
      and "blocked_at (loadedData got config now) now"
  shows "TokenBucketStrategy_consume MemoryStorage kp st identifier pts config now =
           (Inr (blocked_result (loadedData got config now) config now), st1)"
  using assms
  by (simp add: TokenBucketStrategy_consume_def MemoryStorage_def Let_def loadedData_def)

lemma mem_consume_reject:
  assumes "memory_get st (tb_buildKey kp identifier) now = (Inr got, st1)"
      and "\<not> blocked_at (loadedData got config now) now"
      and "tokens (refillTokens (loadedData got config now) config now) < param_default pts 1"
  shows "TokenBucketStrategy_consume MemoryStorage kp st identifier pts config now =
           (Inr \<lparr>allowed = False,
                 remaining = of_int \<lfloor>tokens (refillTokens (loadedData got config now) config now)\<rfloor>,
                 limit = points config,
                 resetAt = now + of_int \<lceil>(param_default pts 1
                     - tokens (refillTokens (loadedData got config now) config now))
                     / getRefillRate config\<rceil> * 1000,
                 retryAfter = of_int \<lceil>(param_default pts 1
                     - tokens (refillTokens (loadedData got config now) config now))
                     / getRefillRate config\<rceil>,
                 res_consumed = consumed (loadedData got config now),
                 isBlocked = None\<rparr>,
            st1\<lparr>cache := (cache st1)
                  (base_buildKey (storageKeyPrefix st1) (tb_buildKey kp identifier) \<mapsto>
                     \<lparr>data = rejectedData (refillTokens (loadedData got config now) config now)
                               config now,
                      expiresAt = now + (duration config
                                   + or_default (blockDuration config) 60) * 1000\<rparr>)\<rparr>)"
proof -
  have c: "consumed (refillTokens d config now) = consumed d" for d
    by (simp add: refillTokens_def Let_def)
  have t: "tokens (rejectedData d config now) = tokens d"
          "consumed (rejectedData d config now) = consumed d" for d
    by (simp_all add: rejectedData_def)
  show ?thesis
    using assms
    unfolding TokenBucketStrategy_consume_def MemoryStorage_def loadedData_def[symmetric]
       rejectedData_def[symmetric]
    by (simp add: Let_def memory_set_def c t)
qed

lemma mem_consume_accept:
  assumes "memory_get st (tb_buildKey kp identifier) now = (Inr got, st1)"
      and "\<not> blocked_at (loadedData got config now) now"
      and "\<not> tokens (refillTokens (loadedData got config now) config now) < param_default pts 1"
  shows "TokenBucketStrategy_consume MemoryStorage kp st identifier pts config now =
           (Inr \<lparr>allowed = True,
                 remaining = of_int \<lfloor>tokens (refillTokens (loadedData got config now) config now)
                                      - param_default pts 1\<rfloor>,
                 limit = points config,
                 resetAt = of_int \<lfloor>now + (points config
                     - (tokens (refillTokens (loadedData got config now) config now)
                        - param_default pts 1)) / getRefillRate config * 1000\<rfloor>,
                 retryAfter = 0,
                 res_consumed = consumed (loadedData got config now) + param_default pts 1,
                 isBlocked = None\<rparr>,
            st1\<lparr>cache := (cache st1)
                  (base_buildKey (storageKeyPrefix st1) (tb_buildKey kp identifier) \<mapsto>
                     \<lparr>data = (refillTokens (loadedData got config now) config now)
                               \<lparr>tokens := tokens (refillTokens (loadedData got config now) config now)
                                           - param_default pts 1,
                                consumed := consumed (loadedData got config now)
                                           + param_default pts 1\<rparr>,
                      expiresAt = now + duration config * 1000\<rparr>)\<rparr>)"
proof -
  have c: "consumed (refillTokens d config now) = consumed d" for d
    by (simp add: refillTokens_def Let_def)
  show ?thesis
    using assms
    unfolding TokenBucketStrategy_consume_def MemoryStorage_def loadedData_def[symmetric]
    by (simp add: Let_def memory_set_def c)
qed

text \<open>
  C10. On the memory backend, the result of \<open>consume\<close> carries \<open>isBlocked = true\<close> exactly
  when the backend holds, for the key, a record not expired whose \<open>blockUntil\<close> is set (and
  not \<open>0\<close>) and later than \<open>now\<close>; in every other result the field is absent. In
  particular a call that rejects for lack of tokens with \<open>blockDuration\<close> configured stores
  \<open>blockUntil = now + blockDuration * 1000\<close> and still returns a result without the field.
\<close>

theorem rejection_omits_isBlocked:
  assumes "TokenBucketStrategy_consume MemoryStorage kp st identifier pts config now = (Inr r, st2)"
  shows "(isBlocked r = Some True) =
           (\<exists>d b. stored_record st (base_buildKey (storageKeyPrefix st) (tb_buildKey kp identifier)) now = Some d
                  \<and> blockUntil d = Some b \<and> b \<noteq> 0 \<and> now < b) \<and>
         (isBlocked r = None) =
           (\<not> (\<exists>d b. stored_record st (base_buildKey (storageKeyPrefix st) (tb_buildKey kp identifier)) now = Some d
                  \<and> blockUntil d = Some b \<and> b \<noteq> 0 \<and> now < b)) \<and>
         (\<not> allowed r \<and> isBlocked r = None \<and> truthy (blockDuration config) \<longrightarrow>
            (\<exists>e. cache st2 (base_buildKey (storageKeyPrefix st) (tb_buildKey kp identifier)) = Some e \<and>
                 blockUntil (data e) = Some (now + the (blockDuration config) * 1000)))"
proof -
  let ?fk = "base_buildKey (storageKeyPrefix st) (tb_buildKey kp identifier)"
  let ?got = "stored_record st ?fk now"
  let ?d0 = "loadedData ?got config now"
  define st1 where "st1 = snd (memory_get st (tb_buildKey kp identifier) now)"
  have g: "memory_get st (tb_buildKey kp identifier) now = (Inr ?got, st1)"
    unfolding st1_def by (rule memory_get_pair)
  have p: "storageKeyPrefix st1 = storageKeyPrefix st"
    unfolding st1_def by (rule memory_get_prefix)
  have bl: "blocked_at ?d0 now = (\<exists>d b. ?got = Some d \<and> blockUntil d = Some b \<and> b \<noteq> 0 \<and> now < b)"
    by (cases ?got) (simp_all add: blocked_at_iff loadedData_def)
  show ?thesis
  proof (cases "blocked_at ?d0 now")
    case True
    have "r = blocked_result ?d0 config now"
      using mem_consume_blocked[OF g True] assms by simp
    then show ?thesis using True bl by (simp add: blocked_result_def)
  next
    case nb: False
    show ?thesis
    proof (cases "tokens (refillTokens ?d0 config now) < param_default pts 1")
      case True
      from mem_consume_reject[OF g nb True] assms
      have r: "isBlocked r = None" "\<not> allowed r"
        and s: "cache st2 ?fk = Some \<lparr>data = rejectedData (refillTokens ?d0 config now) config now,
                      expiresAt = now + (duration config + or_default (blockDuration config) 60) * 1000\<rparr>"
        by (auto simp: p)
      show ?thesis using r s nb bl by (simp add: rejectedData_def)
    next
      case False
      from mem_consume_accept[OF g nb False] assms
      have r: "isBlocked r = None" "allowed r" by auto
      show ?thesis using r nb bl by simp
    qed
  qed
qed

theorem rejection_omits_isBlocked_witness:
  "fst (TokenBucketStrategy_consume MemoryStorage ''tb'' drainedStore ''u1'' (Some 1) cfgBlock 1000) =
     Inr \<lparr>allowed = False, remaining = 0, limit = 1, resetAt = 61000, retryAfter = 60,
           res_consumed = 1, isBlocked = None\<rparr> \<and>
   map_option (\<lambda>e. blockUntil (data e))
     (cache (snd (TokenBucketStrategy_consume MemoryStorage ''tb'' drainedStore ''u1'' (Some 1) cfgBlock 1000))
       ''ratelimit:tb:u1'') = Some (Some 31000)"
proof -
  have c: "TokenBucketStrategy_consume MemoryStorage ''tb'' drainedStore ''u1'' (Some 1) cfgBlock 1000 =
     (Inr \<lparr>allowed = False, remaining = 0, limit = 1, resetAt = 61000, retryAfter = 60,
           res_consumed = 1, isBlocked = None\<rparr>,
      drainedStore\<lparr>cache := (cache drainedStore)(''ratelimit:tb:u1'' \<mapsto>
         \<lparr>data = \<lparr>tokens = 0, lastRefill = 1000, consumed = 1, blockUntil = Some 31000\<rparr>,
                  expiresAt = 91000\<rparr>)\<rparr>)"
    by (simp add: TokenBucketStrategy_consume_def MemoryStorage_def drainedStore_def cfgBlock_def Let_def
      memory_get_def memory_set_def base_buildKey_def tb_buildKey_def blocked_at_def truthy_def
      refillTokens_def getRefillRate_def or_default_def param_default_def)
  show ?thesis
    using rejection_omits_isBlocked[OF c] by (simp add: c)
qed

section \<open>Draining a bucket\<close>

lemma bucket_with_loaded:
  assumes "bucket_with st fk config now k"
  shows "tokens (loadedData (stored_record st fk now) config now) = of_nat k \<and>
         lastRefill (loadedData (stored_record st fk now) config now) = now \<and>
         blockUntil (loadedData (stored_record st fk now) config now) = None"
  using assms by (cases "stored_record st fk now") (simp_all add: bucket_with_def loadedData_def)

lemma refill_same_instant:
  assumes "lastRefill d = now" and "tokens d \<le> points config"
  shows "tokens (refillTokens d config now) = tokens d"
  using assms by (simp add: refillTokens_def Let_def)

lemma refill_fields:
  "lastRefill (refillTokens d config now) = now"
  "consumed (refillTokens d config now) = consumed d"
  "blockUntil (refillTokens d config now) = blockUntil d"
  by (simp_all add: refillTokens_def Let_def)

lemma not_blocked_without_blockUntil: "blockUntil d = None \<Longrightarrow> \<not> blocked_at d now"
  by (simp add: blocked_at_def truthy_def)

lemma drain_step_allowed:
  assumes b: "bucket_with st (base_buildKey (storageKeyPrefix st) (tb_buildKey kp identifier)) config now (Suc k)"
      and le: "of_nat (Suc k) \<le> points config" and dur: "0 \<le> duration config"
  shows "\<exists>r st'. TokenBucketStrategy_consume MemoryStorage kp st identifier (Some 1) config now = (Inr r, st')
           \<and> allowed r \<and> remaining r = of_nat k
           \<and> storageKeyPrefix st' = storageKeyPrefix st
           \<and> bucket_with st' (base_buildKey (storageKeyPrefix st) (tb_buildKey kp identifier)) config now k"
proof -
  let ?fk = "base_buildKey (storageKeyPrefix st) (tb_buildKey kp identifier)"
  define d0 where "d0 = loadedData (stored_record st ?fk now) config now"
  define st1 where "st1 = snd (memory_get st (tb_buildKey kp identifier) now)"
  have g: "memory_get st (tb_buildKey kp identifier) now = (Inr (stored_record st ?fk now), st1)"
    unfolding st1_def by (rule memory_get_pair)
  have p: "storageKeyPrefix st1 = storageKeyPrefix st"
    unfolding st1_def by (rule memory_get_prefix)
  from bucket_with_loaded[OF b]
  have d0: "tokens d0 = of_nat (Suc k)" "lastRefill d0 = now" "blockUntil d0 = None"
    by (simp_all add: d0_def)
  have nb: "\<not> blocked_at d0 now" by (rule not_blocked_without_blockUntil[OF d0(3)])
  have t1: "tokens (refillTokens d0 config now) = of_nat (Suc k)"
    using refill_same_instant[OF d0(2), of config] d0(1) le by simp
  have enough: "\<not> tokens (refillTokens d0 config now) < param_default (Some 1) 1"
    by (simp add: t1 param_default_def)
  note c = mem_consume_accept[OF g nb[unfolded d0_def] enough[unfolded d0_def], folded d0_def]
  have fl: "\<lfloor>(1::rat) + of_nat k - 1\<rfloor> = int k" by simp
  have live: "\<not> duration config < 0" using dur by simp
  show ?thesis
    unfolding c
    by (simp add: t1 p param_default_def bucket_with_def stored_record_def refill_fields d0 fl live)
qed

lemma drain_step_rejected:
  assumes b: "bucket_with st (base_buildKey (storageKeyPrefix st) (tb_buildKey kp identifier)) config now 0"
      and le: "0 \<le> points config"
  shows "\<exists>r st'. TokenBucketStrategy_consume MemoryStorage kp st identifier (Some 1) config now = (Inr r, st')
           \<and> \<not> allowed r \<and> remaining r = 0"
proof -
  let ?fk = "base_buildKey (storageKeyPrefix st) (tb_buildKey kp identifier)"
  define d0 where "d0 = loadedData (stored_record st ?fk now) config now"
  define st1 where "st1 = snd (memory_get st (tb_buildKey kp identifier) now)"
  have g: "memory_get st (tb_buildKey kp identifier) now = (Inr (stored_record st ?fk now), st1)"
    unfolding st1_def by (rule memory_get_pair)
  from bucket_with_loaded[OF b]
  have d0: "tokens d0 = 0" "lastRefill d0 = now" "blockUntil d0 = None"
    by (simp_all add: d0_def)
  have nb: "\<not> blocked_at d0 now" by (rule not_blocked_without_blockUntil[OF d0(3)])
  have t1: "tokens (refillTokens d0 config now) = 0"
    using refill_same_instant[OF d0(2), of config] d0(1) le by simp
  have short: "tokens (refillTokens d0 config now) < param_default (Some 1) 1"
    by (simp add: t1 param_default_def)
  note c = mem_consume_reject[OF g nb[unfolded d0_def] short[unfolded d0_def], folded d0_def]
  show ?thesis
    unfolding c by (simp add: t1)
qed

lemma drain_seq:
  assumes le: "of_nat k \<le> points config" and dur: "0 \<le> duration config"
      and b: "bucket_with st (base_buildKey (storageKeyPrefix st) (tb_buildKey kp identifier)) config now k"
  shows "\<exists>rs st'. consume_seq MemoryStorage kp st identifier (Some 1) config (replicate (Suc k) now)
                    = (map Inr rs, st')
           \<and> length rs = Suc k
           \<and> (\<forall>i<k. allowed (rs ! i) \<and> remaining (rs ! i) = of_nat (k - Suc i))
           \<and> \<not> allowed (rs ! k) \<and> remaining (rs ! k) = 0"
  using le b
proof (induction k arbitrary: st)
  case 0
  from drain_step_rejected[OF "0.prems"(2)] "0.prems"(1)
  obtain r st' where c: "TokenBucketStrategy_consume MemoryStorage kp st identifier (Some 1) config now = (Inr r, st')"
    and r: "\<not> allowed r" "remaining r = 0" by auto
  have "consume_seq MemoryStorage kp st identifier (Some 1) config (replicate (Suc 0) now) = (map Inr [r], st')"
    by (simp add: c)
  then show ?case using r by (intro exI[of _ "[r]"] exI[of _ st']) simp
next
  case (Suc k)
  from drain_step_allowed[OF Suc.prems(2) Suc.prems(1) dur]
  obtain r st1 where c: "TokenBucketStrategy_consume MemoryStorage kp st identifier (Some 1) config now = (Inr r, st1)"
    and r: "allowed r" "remaining r = of_nat k"
    and p: "storageKeyPrefix st1 = storageKeyPrefix st"
    and b1: "bucket_with st1 (base_buildKey (storageKeyPrefix st) (tb_buildKey kp identifier)) config now k"
    by auto
  have le1: "of_nat k \<le> points config" using Suc.prems(1) by simp
  from Suc.IH[OF le1, of st1] b1 p
  obtain rs st' where s: "consume_seq MemoryStorage kp st1 identifier (Some 1) config (replicate (Suc k) now) = (map Inr rs, st')"
    and len: "length rs = Suc k"
    and al: "\<forall>i<k. allowed (rs ! i) \<and> remaining (rs ! i) = of_nat (k - Suc i)"
    and last: "\<not> allowed (rs ! k)" "remaining (rs ! k) = 0"
    by auto
  have run: "consume_seq MemoryStorage kp st identifier (Some 1) config (replicate (Suc (Suc k)) now)
               = (map Inr (r # rs), st')"
    using c s by simp
  have all': "\<forall>i<Suc k. allowed ((r # rs) ! i) \<and> remaining ((r # rs) ! i) = of_nat (Suc k - Suc i)"
  proof (intro allI impI)
    fix i assume "i < Suc k"
    then show "allowed ((r # rs) ! i) \<and> remaining ((r # rs) ! i) = of_nat (Suc k - Suc i)"
      using r al by (cases i) simp_all
  qed
  show ?case
    using run len all' last by (intro exI[of _ "r # rs"] exI[of _ st']) simp
qed

text \<open>
  C1. A valid config with integer capacity \<open>P \<ge> 1\<close>, an identifier with nothing stored,
  and \<open>P + 1\<close> calls of \<open>consume\<close> with cost \<open>1\<close>, all at the same time \<open>now\<close>: call
  \<open>i\<close>, for \<open>i = 1..P\<close>, is allowed with \<open>remaining = P - i\<close>, and call \<open>P + 1\<close> is
  rejected with \<open>remaining = 0\<close>. No call fails.
\<close>

theorem drain_from_fresh:
  assumes "points config = of_nat P" and "1 \<le> P" and "0 < duration config"
      and "stored_record st (base_buildKey (storageKeyPrefix st) (tb_buildKey kp identifier)) now = None"
  shows "\<exists>rs st'. consume_seq MemoryStorage kp st identifier (Some 1) config (replicate (Suc P) now)
                    = (map Inr rs, st')
           \<and> length rs = Suc P
           \<and> (\<forall>i. 1 \<le> i \<and> i \<le> P \<longrightarrow>
                  allowed (rs ! (i - 1)) \<and> remaining (rs ! (i - 1)) = of_nat P - of_nat i)
           \<and> \<not> allowed (rs ! P) \<and> remaining (rs ! P) = 0"
proof -
  have b: "bucket_with st (base_buildKey (storageKeyPrefix st) (tb_buildKey kp identifier)) config now P"
    using assms(1,4) by (simp add: bucket_with_def)
  have le: "of_nat P \<le> points config" using assms(1) by simp
  have dur: "0 \<le> duration config" using assms(3) by simp
  from drain_seq[OF le dur b]
  obtain rs st' where s: "consume_seq MemoryStorage kp st identifier (Some 1) config (replicate (Suc P) now) = (map Inr rs, st')"
    and len: "length rs = Suc P"
    and al: "\<forall>i<P. allowed (rs ! i) \<and> remaining (rs ! i) = of_nat (P - Suc i)"
    and last: "\<not> allowed (rs ! P)" "remaining (rs ! P) = 0"
    by auto
  have "allowed (rs ! (i - 1)) \<and> remaining (rs ! (i - 1)) = of_nat P - of_nat i"
    if "1 \<le> i \<and> i \<le> P" for i
  proof -
    have "i - 1 < P" using that by arith
    with al have "allowed (rs ! (i - 1))" "remaining (rs ! (i - 1)) = of_nat (P - Suc (i - 1))" by auto
    moreover have "Suc (i - 1) = i" using that by arith
    moreover have "(of_nat (P - i) :: rat) = of_nat P - of_nat i" using that by (simp add: of_nat_diff)
    ultimately show ?thesis by simp
  qed
  then show ?thesis using s len last by blast
qed

theorem drain_from_fresh_witness:
  "points cfg2 = of_nat 2 \<and> (1::nat) \<le> 2 \<and> 0 < duration cfg2 \<and>
   stored_record (new_MemoryRateLimitStorage None) ''ratelimit:tb:u1'' 0 = None \<and>
   map (map_sum id (\<lambda>r. (allowed r, remaining r)))
     (fst (consume_seq MemoryStorage ''tb'' (new_MemoryRateLimitStorage None) ''u1'' (Some 1) cfg2 [0, 0, 0]))
     = [Inr (True, 1), Inr (True, 0), Inr (False, 0)]"
proof -
  have h: "points cfg2 = of_nat 2" "(1::nat) \<le> 2" "0 < duration cfg2"
    "stored_record (new_MemoryRateLimitStorage None)
       (base_buildKey (storageKeyPrefix (new_MemoryRateLimitStorage None)) (tb_buildKey ''tb'' ''u1'')) 0 = None"
    by (simp_all add: cfg2_def stored_record_def new_MemoryRateLimitStorage_def)
  have rep: "replicate (Suc 2) (0::rat) = [0, 0, 0]" by (simp add: numeral_2_eq_2)
  from drain_from_fresh[OF h] obtain rs st' where
    s: "consume_seq MemoryStorage ''tb'' (new_MemoryRateLimitStorage None) ''u1'' (Some 1) cfg2 [0, 0, 0] = (map Inr rs, st')"
    and len: "length rs = 3"
    and al: "\<forall>i. 1 \<le> i \<and> i \<le> 2 \<longrightarrow> allowed (rs ! (i - 1)) \<and> remaining (rs ! (i - 1)) = of_nat 2 - of_nat i"
    and last: "\<not> allowed (rs ! 2)" "remaining (rs ! 2) = 0"
    unfolding rep by auto
  from len obtain a b c where rs: "rs = [a, b, c]"
    by (cases rs; cases "tl rs"; cases "tl (tl rs)") auto
  from al[rule_format, of 1] al[rule_format, of 2] last
  have "allowed a" "remaining a = 1" "allowed b" "remaining b = 0" "\<not> allowed c" "remaining c = 0"
    by (simp_all add: rs)
  then show ?thesis using h(1,2,3) s rs
    by (simp add: stored_record_def new_MemoryRateLimitStorage_def)
qed

section \<open>Refill\<close>

lemma mem_getStatus_present:
  assumes "memory_get st (tb_buildKey kp identifier) now = (Inr (Some d), st1)"
      and "\<not> blocked_at d now"
  shows "TokenBucketStrategy_getStatus MemoryStorage kp st identifier config now =
           (Inr \<lparr>allowed = (1 \<le> tokens (refillTokens d config now)),
                 remaining = of_int \<lfloor>tokens (refillTokens d config now)\<rfloor>,
                 limit = points config,
                 resetAt = of_int \<lfloor>now + (points config - tokens (refillTokens d config now))
                                     / getRefillRate config * 1000\<rfloor>,
                 retryAfter = 0, res_consumed = consumed d, isBlocked = None\<rparr>, st1)"
  using assms
  by (simp add: TokenBucketStrategy_getStatus_def MemoryStorage_def Let_def refill_fields)




section \<open>Blocking\<close>

lemma mem_consume_live_blocked:
  assumes "cache st (base_buildKey (storageKeyPrefix st) (tb_buildKey kp identifier)) = Some e"
      and "t \<le> expiresAt e" and "blockUntil (data e) = Some b" and "t < b" and "b \<noteq> 0"
  shows "TokenBucketStrategy_consume MemoryStorage kp st identifier pts config t =
           (Inr (blocked_result (data e) config t), st)"
proof -
  have g: "memory_get st (tb_buildKey kp identifier) t = (Inr (Some (data e)), st)"
    using assms(1,2) by (rule memory_get_live)
  have b: "blocked_at (loadedData (Some (data e)) config t) t"
    using assms(3,4,5) by (simp add: blocked_at_def truthy_def loadedData_def)
  show ?thesis
    using mem_consume_blocked[OF g b] by (simp add: loadedData_def)
qed

lemma mem_isBlocked_live:
  assumes "cache st (base_buildKey (storageKeyPrefix st) (tb_buildKey kp identifier)) = Some e"
      and "t \<le> expiresAt e" and "blockUntil (data e) = Some b" and "b \<noteq> 0"
  shows "TokenBucketStrategy_isBlocked MemoryStorage kp st identifier t = (Inr (t < b), st)"
  using memory_get_live[OF assms(1,2)] assms(3,4)
  by (simp add: TokenBucketStrategy_isBlocked_def MemoryStorage_def truthy_def)

lemma blocked_consume_seq:
  assumes "cache st (base_buildKey (storageKeyPrefix st) (tb_buildKey kp identifier)) = Some e"
      and "blockUntil (data e) = Some b" and "b \<noteq> 0" and "b \<le> expiresAt e"
      and "\<forall>t \<in> set ts. t < b"
  shows "consume_seq MemoryStorage kp st identifier pts config ts =
           (map (\<lambda>t. Inr (blocked_result (data e) config t)) ts, st)"
  using assms(5)
proof (induction ts)
  case Nil
  show ?case by simp
next
  case (Cons t ts)
  have t: "t < b" "t \<le> expiresAt e" using Cons.prems assms(4) by auto
  have "TokenBucketStrategy_consume MemoryStorage kp st identifier pts config t =
           (Inr (blocked_result (data e) config t), st)"
    using mem_consume_live_blocked[OF assms(1) t(2) assms(2) t(1) assms(3)] .
  moreover have "consume_seq MemoryStorage kp st identifier pts config ts =
           (map (\<lambda>t. Inr (blocked_result (data e) config t)) ts, st)"
    using Cons by simp
  ultimately show ?case by simp
qed

lemma rejection_stores_block:
  assumes c: "TokenBucketStrategy_consume MemoryStorage kp st identifier pts config now = (Inr r, st1)"
      and r: "\<not> allowed r" "isBlocked r = None"
      and bd: "blockDuration config = Some bd" "bd \<noteq> 0"
  shows "\<exists>e. cache st1 (base_buildKey (storageKeyPrefix st1) (tb_buildKey kp identifier)) = Some e
              \<and> blockUntil (data e) = Some (now + bd * 1000)
              \<and> expiresAt e = now + (duration config + bd) * 1000"
proof -
  let ?fk = "base_buildKey (storageKeyPrefix st) (tb_buildKey kp identifier)"
  let ?got = "stored_record st ?fk now"
  let ?d0 = "loadedData ?got config now"
  define s1 where "s1 = snd (memory_get st (tb_buildKey kp identifier) now)"
  have g: "memory_get st (tb_buildKey kp identifier) now = (Inr ?got, s1)"
    unfolding s1_def by (rule memory_get_pair)
  have p: "storageKeyPrefix s1 = storageKeyPrefix st"
    unfolding s1_def by (rule memory_get_prefix)
  have nb: "\<not> blocked_at ?d0 now"
  proof
    assume "blocked_at ?d0 now"
    from mem_consume_blocked[OF g this] c have "r = blocked_result ?d0 config now" by simp
    then show False using r(2) by (simp add: blocked_result_def)
  qed
  have short: "tokens (refillTokens ?d0 config now) < param_default pts 1"
  proof (rule ccontr)
    assume "\<not> tokens (refillTokens ?d0 config now) < param_default pts 1"
    from mem_consume_accept[OF g nb this] c have "allowed r" by auto
    then show False using r(1) by simp
  qed
  from mem_consume_reject[OF g nb short] c
  have "st1 = s1\<lparr>cache := (cache s1)
                  (base_buildKey (storageKeyPrefix s1) (tb_buildKey kp identifier) \<mapsto>
                     \<lparr>data = rejectedData (refillTokens ?d0 config now) config now,
                      expiresAt = now + (duration config
                                   + or_default (blockDuration config) 60) * 1000\<rparr>)\<rparr>"
    by simp
  then show ?thesis
    using bd by (simp add: p rejectedData_def truthy_def or_default_def)
qed

text \<open>
  C4. A valid config with a positive \<open>blockDuration\<close>, and a \<open>consume\<close> at \<open>now\<close> that
  rejects for lack of tokens (not allowed, and not the verdict of an earlier block). From
  the state it leaves, at every time \<open>t\<close> with \<open>now \<le> t < now + blockDuration * 1000\<close>,
  \<open>isBlocked\<close> returns true, and every run of \<open>consume\<close> calls at such times (any cost, any
  config) returns only \<open>allowed = false\<close>, \<open>isBlocked = true\<close>, \<open>remaining = 0\<close>, whatever
  would have been refilled, and leaves the backend as it was.
\<close>

theorem block_after_rejection:
  assumes "0 < duration config" and "blockDuration config = Some bd" and "0 < bd"
      and "0 \<le> now"
      and "TokenBucketStrategy_consume MemoryStorage kp st identifier pts config now = (Inr r, st1)"
      and "\<not> allowed r" and "isBlocked r = None"
  shows "(\<forall>t. now \<le> t \<and> t < now + bd * 1000 \<longrightarrow>
            TokenBucketStrategy_isBlocked MemoryStorage kp st1 identifier t = (Inr True, st1)) \<and>
         (\<forall>ts cost cfg. (\<forall>t \<in> set ts. now \<le> t \<and> t < now + bd * 1000) \<longrightarrow>
            (\<exists>rs. consume_seq MemoryStorage kp st1 identifier cost cfg ts = (map Inr rs, st1)
                 \<and> length rs = length ts
                 \<and> (\<forall>x \<in> set rs. \<not> allowed x \<and> isBlocked x = Some True \<and> remaining x = 0)))"
proof -
  have "bd \<noteq> 0" using assms(3) by simp
  from rejection_stores_block[OF assms(5,6,7,2) this]
  obtain e where
        e: "cache st1 (base_buildKey (storageKeyPrefix st1) (tb_buildKey kp identifier)) = Some e"
    and bu: "blockUntil (data e) = Some (now + bd * 1000)"
    and ex: "expiresAt e = now + (duration config + bd) * 1000"
    by blast
  have "0 < bd * 1000" using assms(3) by simp
  then have nz: "now + bd * 1000 \<noteq> 0" using assms(4) by linarith
  have le: "now + bd * 1000 \<le> expiresAt e" using assms(1) by (simp add: ex algebra_simps)
  have ib: "TokenBucketStrategy_isBlocked MemoryStorage kp st1 identifier t = (Inr True, st1)"
    if "now \<le> t \<and> t < now + bd * 1000" for t
  proof -
    have "t \<le> expiresAt e" using that le by simp
    from mem_isBlocked_live[OF e this bu nz] that show ?thesis by simp
  qed
  have sq: "\<exists>rs. consume_seq MemoryStorage kp st1 identifier cost cfg ts = (map Inr rs, st1)
                 \<and> length rs = length ts
                 \<and> (\<forall>x \<in> set rs. \<not> allowed x \<and> isBlocked x = Some True \<and> remaining x = 0)"
    if "\<forall>t \<in> set ts. now \<le> t \<and> t < now + bd * 1000" for ts cost cfg
  proof -
    have "\<forall>t \<in> set ts. t < now + bd * 1000" using that by simp
    from blocked_consume_seq[OF e bu nz le this, of cost cfg]
    have "consume_seq MemoryStorage kp st1 identifier cost cfg ts =
            (map Inr (map (\<lambda>t. blocked_result (data e) cfg t) ts), st1)"
      by (simp add: comp_def)
    then show ?thesis
      by (intro exI[of _ "map (\<lambda>t. blocked_result (data e) cfg t) ts"])
         (auto simp: blocked_result_def)
  qed
  show ?thesis using ib sq by blast
qed

theorem block_after_rejection_witness:
  "0 < duration cfgBlock \<and> blockDuration cfgBlock = Some 30 \<and>
   TokenBucketStrategy_consume MemoryStorage ''tb'' drainedStore ''u1'' (Some 1) cfgBlock 1000 =
     (Inr \<lparr>allowed = False, remaining = 0, limit = 1, resetAt = 61000, retryAfter = 60,
           res_consumed = 1, isBlocked = None\<rparr>, blockedAfter) \<and>
   fst (TokenBucketStrategy_isBlocked MemoryStorage ''tb'' blockedAfter ''u1'' 1000) = Inr True \<and>
   fst (TokenBucketStrategy_isBlocked MemoryStorage ''tb'' blockedAfter ''u1'' 30999) = Inr True \<and>
   map (map_sum id (\<lambda>r. (allowed r, isBlocked r)))
     (fst (consume_seq MemoryStorage ''tb'' blockedAfter ''u1'' (Some 1) cfgBlock [1000, 25000, 30999]))
     = [Inr (False, Some True), Inr (False, Some True), Inr (False, Some True)]"
proof -
  have c: "TokenBucketStrategy_consume MemoryStorage ''tb'' drainedStore ''u1'' (Some 1) cfgBlock 1000 =
     (Inr \<lparr>allowed = False, remaining = 0, limit = 1, resetAt = 61000, retryAfter = 60,
           res_consumed = 1, isBlocked = None\<rparr>, blockedAfter)"
    by (simp add: TokenBucketStrategy_consume_def MemoryStorage_def drainedStore_def cfgBlock_def Let_def
      memory_get_def memory_set_def base_buildKey_def tb_buildKey_def blocked_at_def truthy_def
      refillTokens_def getRefillRate_def or_default_def param_default_def blockedAfter_def)
  have h: "0 < duration cfgBlock" "blockDuration cfgBlock = Some 30" "(0::rat) < 30" "(0::rat) \<le> 1000"
    by (simp_all add: cfgBlock_def)
  note th = block_after_rejection[OF h c, simplified]
  have w: "\<forall>t \<in> set [1000, 25000, 30999::rat]. 1000 \<le> t \<and> t < 31000" by simp
  from th[THEN conjunct2, THEN spec[where x="[1000, 25000, 30999]"], THEN mp, OF w,
          THEN spec[where x="Some 1"], THEN spec[where x=cfgBlock]]
  obtain rs where s: "consume_seq MemoryStorage ''tb'' blockedAfter ''u1'' (Some 1) cfgBlock [1000, 25000, 30999]
      = (map Inr rs, blockedAfter)" and len: "length rs = 3"
    and al: "\<forall>x \<in> set rs. \<not> allowed x \<and> isBlocked x = Some True \<and> remaining x = 0"
    by auto
  from len obtain a b c where rs: "rs = [a, b, c]"
    by (cases rs; cases "tl rs"; cases "tl (tl rs)") auto
  have i1: "TokenBucketStrategy_isBlocked MemoryStorage ''tb'' blockedAfter ''u1'' 1000 = (Inr True, blockedAfter)"
    using th[THEN conjunct1, THEN spec[where x=1000]] by simp
  have i2: "TokenBucketStrategy_isBlocked MemoryStorage ''tb'' blockedAfter ''u1'' 30999 = (Inr True, blockedAfter)"
    using th[THEN conjunct1, THEN spec[where x=30999]] by simp
  show ?thesis
    using h(1,2) c i1 i2 s al by (simp add: rs)
qed

section \<open>getStatus\<close>

lemma getStatus_state:
  "snd (TokenBucketStrategy_getStatus S kp s identifier config now) =
     snd (storage_get S s (tb_buildKey kp identifier) now)"
  by (simp add: TokenBucketStrategy_getStatus_def Let_def
      split: prod.splits sum.splits option.splits)

lemma memory_get_view:
  assumes "now \<le> t"
  shows "stored_record (snd (memory_get st key now)) fk t = stored_record st fk t"
proof (cases "cache st (base_buildKey (storageKeyPrefix st) key)")
  case None
  then show ?thesis by (simp add: memory_get_def Let_def)
next
  case (Some e)
  show ?thesis
  proof (cases "now > expiresAt e")
    case True
    then have "t > expiresAt e" using assms by simp
    then show ?thesis using Some True
      by (simp add: memory_get_def Let_def stored_record_def)
  next
    case False
    then show ?thesis using Some by (simp add: memory_get_def Let_def)
  qed
qed

lemma mem_getStatus_absent:
  assumes "memory_get st (tb_buildKey kp identifier) now = (Inr None, st1)"
  shows "TokenBucketStrategy_getStatus MemoryStorage kp st identifier config now =
           (Inr \<lparr>allowed = True, remaining = points config, limit = points config,
                 resetAt = now, retryAfter = 0, res_consumed = 0, isBlocked = None\<rparr>, st1)"
  using assms by (simp add: TokenBucketStrategy_getStatus_def MemoryStorage_def Let_def)

lemma mem_getStatus_blocked:
  assumes "memory_get st (tb_buildKey kp identifier) now = (Inr (Some d), st1)"
      and "blocked_at d now"
  shows "TokenBucketStrategy_getStatus MemoryStorage kp st identifier config now =
           (Inr (blocked_result d config now), st1)"
  using assms by (simp add: TokenBucketStrategy_getStatus_def MemoryStorage_def Let_def)

text \<open>
  C8. \<open>getStatus\<close> calls the backend's \<open>get\<close> once and nothing else: on every backend the
  state after the call is the state after that \<open>get\<close>. On the memory backend (whose \<open>get\<close>
  drops an entry it finds expired) the record a caller observes under any key, at \<open>now\<close> or
  later, is the one observed before the call, and a backend holding a live record for the
  key is left exactly as it was. A stored block that is still active gives the verdict
  that \<open>consume\<close> gives; otherwise, under a valid config, the result is computed from
  \<open>refillTokens\<close>, and apart from \<open>allowed\<close> it is the result of a \<open>consume\<close> of cost
  \<open>0\<close>; for an absent bucket (integer capacity and time) it is the full bucket, as for
  \<open>consume\<close> of cost \<open>0\<close>.
\<close>

theorem getStatus_is_read_only:
  "snd (TokenBucketStrategy_getStatus S kp s identifier config now) =
     snd (storage_get S s (tb_buildKey kp identifier) now)
   \<and> (\<forall>fk t. now \<le> t \<longrightarrow>
         stored_record (snd (TokenBucketStrategy_getStatus MemoryStorage kp st identifier config now)) fk t
           = stored_record st fk t)
   \<and> (\<forall>d. stored_record st (base_buildKey (storageKeyPrefix st) (tb_buildKey kp identifier)) now
             = Some d \<longrightarrow>
          snd (TokenBucketStrategy_getStatus MemoryStorage kp st identifier config now) = st
        \<and> (blocked_at d now \<longrightarrow>
             fst (TokenBucketStrategy_getStatus MemoryStorage kp st identifier config now)
               = Inr (blocked_result d config now)
           \<and> fst (TokenBucketStrategy_consume MemoryStorage kp st identifier pts config now)
               = Inr (blocked_result d config now))
        \<and> (\<not> blocked_at d now \<and> 0 \<le> tokens (refillTokens d config now)
             \<and> 1 \<le> points config \<and> 0 < duration config \<longrightarrow>
             (\<exists>r. fst (TokenBucketStrategy_getStatus MemoryStorage kp st identifier config now)
                    = Inr r
                \<and> allowed r = (1 \<le> tokens (refillTokens d config now))
                \<and> remaining r = of_int \<lfloor>tokens (refillTokens d config now)\<rfloor>
                \<and> fst (TokenBucketStrategy_consume MemoryStorage kp st identifier (Some 0) config now)
                    = Inr (r\<lparr>allowed := True\<rparr>))))
   \<and> (stored_record st (base_buildKey (storageKeyPrefix st) (tb_buildKey kp identifier)) now = None
        \<and> 1 \<le> points config \<and> of_int \<lfloor>points config\<rfloor> = points config
        \<and> of_int \<lfloor>now\<rfloor> = now \<and> 0 < duration config \<longrightarrow>
          fst (TokenBucketStrategy_getStatus MemoryStorage kp st identifier config now)
            = Inr \<lparr>allowed = True, remaining = points config, limit = points config,
                   resetAt = now, retryAfter = 0, res_consumed = 0, isBlocked = None\<rparr>
        \<and> fst (TokenBucketStrategy_consume MemoryStorage kp st identifier (Some 0) config now)
            = fst (TokenBucketStrategy_getStatus MemoryStorage kp st identifier config now))"
proof -
  let ?key = "tb_buildKey kp identifier"
  let ?fk = "base_buildKey (storageKeyPrefix st) ?key"
  define st1 where "st1 = snd (memory_get st ?key now)"
  have g: "memory_get st ?key now = (Inr (stored_record st ?fk now), st1)"
    unfolding st1_def by (rule memory_get_pair)
  have sg: "snd (TokenBucketStrategy_getStatus MemoryStorage kp st identifier config now) = st1"
    unfolding st1_def getStatus_state by (simp add: MemoryStorage_def)
  have A: "snd (TokenBucketStrategy_getStatus S kp s identifier config now) =
             snd (storage_get S s ?key now)"
    by (rule getStatus_state)
  have B: "\<forall>fk t. now \<le> t \<longrightarrow>
         stored_record (snd (TokenBucketStrategy_getStatus MemoryStorage kp st identifier config now)) fk t
           = stored_record st fk t"
    unfolding sg st1_def using memory_get_view by blast
  have C: "snd (TokenBucketStrategy_getStatus MemoryStorage kp st identifier config now) = st
        \<and> (blocked_at d now \<longrightarrow>
             fst (TokenBucketStrategy_getStatus MemoryStorage kp st identifier config now)
               = Inr (blocked_result d config now)
           \<and> fst (TokenBucketStrategy_consume MemoryStorage kp st identifier pts config now)
               = Inr (blocked_result d config now))
        \<and> (\<not> blocked_at d now \<and> 0 \<le> tokens (refillTokens d config now)
             \<and> 1 \<le> points config \<and> 0 < duration config \<longrightarrow>
             (\<exists>r. fst (TokenBucketStrategy_getStatus MemoryStorage kp st identifier config now)
                    = Inr r
                \<and> allowed r = (1 \<le> tokens (refillTokens d config now))
                \<and> remaining r = of_int \<lfloor>tokens (refillTokens d config now)\<rfloor>
                \<and> fst (TokenBucketStrategy_consume MemoryStorage kp st identifier (Some 0) config now)
                    = Inr (r\<lparr>allowed := True\<rparr>)))"
    if d: "stored_record st ?fk now = Some d" for d
  proof -
    have s1: "st1 = st" unfolding st1_def using memory_get_present[OF d] .
    have g': "memory_get st ?key now = (Inr (Some d), st1)" using g d by simp
    have ld: "loadedData (Some d) config now = d" by (simp add: loadedData_def)
    have c1: "snd (TokenBucketStrategy_getStatus MemoryStorage kp st identifier config now) = st"
      using sg s1 by simp
    have c2: "fst (TokenBucketStrategy_getStatus MemoryStorage kp st identifier config now)
               = Inr (blocked_result d config now)
           \<and> fst (TokenBucketStrategy_consume MemoryStorage kp st identifier pts config now)
               = Inr (blocked_result d config now)" if b: "blocked_at d now"
    proof -
      have b': "blocked_at (loadedData (Some d) config now) now" using b by (simp add: ld)
      show ?thesis
        using mem_getStatus_blocked[OF g' b] mem_consume_blocked[OF g' b'] by (simp add: ld)
    qed
    have c3: "\<exists>r. fst (TokenBucketStrategy_getStatus MemoryStorage kp st identifier config now)
                    = Inr r
                \<and> allowed r = (1 \<le> tokens (refillTokens d config now))
                \<and> remaining r = of_int \<lfloor>tokens (refillTokens d config now)\<rfloor>
                \<and> fst (TokenBucketStrategy_consume MemoryStorage kp st identifier (Some 0) config now)
                    = Inr (r\<lparr>allowed := True\<rparr>)"
      if nb: "\<not> blocked_at d now" and pos: "0 \<le> tokens (refillTokens d config now)"
        and "1 \<le> points config" and "0 < duration config"
    proof -
      have nb': "\<not> blocked_at (loadedData (Some d) config now) now" using nb by (simp add: ld)
      have en: "\<not> tokens (refillTokens (loadedData (Some d) config now) config now)
                   < param_default (Some 0) 1"
        using pos by (simp add: ld param_default_def)
      show ?thesis
        unfolding mem_getStatus_present[OF g' nb] mem_consume_accept[OF g' nb' en]
        by (simp add: ld param_default_def)
    qed
    show ?thesis using c1 c2 c3 by blast
  qed
  have D: "fst (TokenBucketStrategy_getStatus MemoryStorage kp st identifier config now)
            = Inr \<lparr>allowed = True, remaining = points config, limit = points config,
                   resetAt = now, retryAfter = 0, res_consumed = 0, isBlocked = None\<rparr>
        \<and> fst (TokenBucketStrategy_consume MemoryStorage kp st identifier (Some 0) config now)
            = fst (TokenBucketStrategy_getStatus MemoryStorage kp st identifier config now)"
    if n: "stored_record st ?fk now = None" and pos1: "1 \<le> points config"
      and ip: "of_int \<lfloor>points config\<rfloor> = points config" and it: "of_int \<lfloor>now\<rfloor> = now"
      and "0 < duration config"
  proof -
    have pos: "0 \<le> points config" using pos1 by simp
    have g': "memory_get st ?key now = (Inr None, st1)" using g n by simp
    have ld: "loadedData None config now =
                \<lparr>tokens = points config, lastRefill = now, consumed = 0, blockUntil = None\<rparr>"
      by (simp add: loadedData_def)
    have nb: "\<not> blocked_at (loadedData None config now) now"
      by (simp add: ld blocked_at_def truthy_def)
    have tk: "tokens (refillTokens (loadedData None config now) config now) = points config"
      by (simp add: ld refillTokens_def Let_def)
    have en: "\<not> tokens (refillTokens (loadedData None config now) config now)
                 < param_default (Some 0) 1"
      using pos by (simp add: tk param_default_def)
    have tk': "tokens (refillTokens \<lparr>tokens = points config, lastRefill = now, consumed = 0,
                 blockUntil = None\<rparr> config now) = points config"
      using tk by (simp add: ld)
    show ?thesis
      unfolding mem_getStatus_absent[OF g'] mem_consume_accept[OF g' nb en]
      by (simp add: tk' param_default_def ip it ld)
  qed
  show ?thesis using A B C D by blast
qed

theorem getStatus_is_read_only_witness:
  "TokenBucketStrategy_getStatus MemoryStorage ''tb'' drained10 ''u1'' cfg10 6000 =
     (Inr \<lparr>allowed = True, remaining = 5, limit = 10, resetAt = 11000, retryAfter = 0,
           res_consumed = 10, isBlocked = None\<rparr>, drained10) \<and>
   TokenBucketStrategy_getStatus MemoryStorage ''tb'' blockedStore ''u1'' cfg10 6000 =
     (Inr \<lparr>allowed = False, remaining = 0, limit = 10, resetAt = 31000, retryAfter = 25,
           res_consumed = 7, isBlocked = Some True\<rparr>, blockedStore) \<and>
   stored_record (snd (TokenBucketStrategy_getStatus MemoryStorage ''tb'' drained10 ''u1'' cfg10 12000))
     ''ratelimit:tb:u1'' 12000 = stored_record drained10 ''ratelimit:tb:u1'' 12000"
proof -
  note th = getStatus_is_read_only[of MemoryStorage "''tb''" drained10 "''u1''" cfg10 12000 drained10 None]
  have a: "TokenBucketStrategy_getStatus MemoryStorage ''tb'' drained10 ''u1'' cfg10 6000 =
     (Inr \<lparr>allowed = True, remaining = 5, limit = 10, resetAt = 11000, retryAfter = 0,
           res_consumed = 10, isBlocked = None\<rparr>, drained10)"
    by (simp add: TokenBucketStrategy_getStatus_def MemoryStorage_def Let_def drained10_def
        cfg10_def memory_get_def base_buildKey_def tb_buildKey_def blocked_at_def truthy_def
        refillTokens_def getRefillRate_def)
  have b: "TokenBucketStrategy_getStatus MemoryStorage ''tb'' blockedStore ''u1'' cfg10 6000 =
     (Inr \<lparr>allowed = False, remaining = 0, limit = 10, resetAt = 31000, retryAfter = 25,
           res_consumed = 7, isBlocked = Some True\<rparr>, blockedStore)"
    by (simp add: TokenBucketStrategy_getStatus_def MemoryStorage_def Let_def blockedStore_def
        cfg10_def memory_get_def base_buildKey_def tb_buildKey_def blocked_at_def truthy_def
        blocked_result_def)
  have c: "stored_record (snd (TokenBucketStrategy_getStatus MemoryStorage ''tb'' drained10 ''u1'' cfg10 12000))
     ''ratelimit:tb:u1'' 12000 = stored_record drained10 ''ratelimit:tb:u1'' 12000"
    using th[THEN conjunct2, THEN conjunct1, THEN spec[where x="''ratelimit:tb:u1''"],
             THEN spec[where x=12000]] by simp
  show ?thesis using a b c by simp
qed

section \<open>Storage keys\<close>

lemma defaultKeyGenerator_eq_iff:
  "(defaultKeyGenerator s ns1 = defaultKeyGenerator s ns2) =
     (ns1 = ns2 \<or> ((ns1 = None \<or> ns1 = Some []) \<and> (ns2 = None \<or> ns2 = Some [])))"
proof -
  have ne: "n @ '':'' @ s \<noteq> s" for n :: string
  proof
    assume "n @ '':'' @ s = s"
    then have "length (n @ '':'' @ s) = length s" by simp
    then show False by simp
  qed
  have ne': "s \<noteq> n @ '':'' @ s" for n :: string
    using ne[of n] by metis
  have inj: "(n1 @ '':'' @ s = n2 @ '':'' @ s) = (n1 = n2)" for n1 n2 :: string
    using append_same_eq[of n1 "'':'' @ s" n2] by simp
  show ?thesis
    by (cases ns1; cases ns2) (auto simp: defaultKeyGenerator_def ne ne' inj)
qed

lemma limiter_storage_key_eq_iff:
  "(limiter_storage_key sp i ns1 = limiter_storage_key sp i ns2) =
     (ns1 = ns2 \<or> ((ns1 = None \<or> ns1 = Some []) \<and> (ns2 = None \<or> ns2 = Some [])))"
  by (simp add: limiter_storage_key_def base_buildKey_def tb_buildKey_def
      defaultKeyGenerator_eq_iff)

lemma mem_consume_frame:
  assumes "k \<noteq> base_buildKey (storageKeyPrefix st) (tb_buildKey kp identifier)"
  shows "cache (snd (TokenBucketStrategy_consume MemoryStorage kp st identifier pts config now)) k
           = cache st k"
proof -
  let ?key = "tb_buildKey kp identifier"
  let ?fk = "base_buildKey (storageKeyPrefix st) ?key"
  let ?got = "stored_record st ?fk now"
  let ?d0 = "loadedData ?got config now"
  define st1 where "st1 = snd (memory_get st ?key now)"
  have g: "memory_get st ?key now = (Inr ?got, st1)"
    unfolding st1_def by (rule memory_get_pair)
  have p: "storageKeyPrefix st1 = storageKeyPrefix st"
    unfolding st1_def by (rule memory_get_prefix)
  have o: "cache st1 k = cache st k"
    unfolding st1_def using assms by (rule memory_get_other)
  show ?thesis
  proof (cases "blocked_at ?d0 now")
    case True
    show ?thesis unfolding mem_consume_blocked[OF g True] using o by simp
  next
    case nb: False
    show ?thesis
    proof (cases "tokens (refillTokens ?d0 config now) < param_default pts 1")
      case True
      show ?thesis unfolding mem_consume_reject[OF g nb True] using o assms by (simp add: p)
    next
      case False
      show ?thesis unfolding mem_consume_accept[OF g nb False] using o assms by (simp add: p)
    qed
  qed
qed

lemma limiter_consume_frame:
  assumes "strategy M = TokenBucketStrategy MemoryStorage ''tb''"
      and "keyGenerator M = defaultKeyGenerator"
      and "limiter_storage_key (storageKeyPrefix (storage M)) i ns1
             \<noteq> limiter_storage_key (storageKeyPrefix (storage M)) i ns2"
  shows "cache (storage (snd (RateLimiter_consume M i pts config ns1 now)))
           (limiter_storage_key (storageKeyPrefix (storage M)) i ns2)
         = cache (storage M) (limiter_storage_key (storageKeyPrefix (storage M)) i ns2)"
proof (cases "shouldBypass M (sanitizeIdentifier i)")
  case True
  then show ?thesis by (simp add: RateLimiter_consume_def Let_def)
next
  case False
  let ?c = "TokenBucketStrategy_consume MemoryStorage ''tb'' (storage M)
              (defaultKeyGenerator (sanitizeIdentifier i) ns1) (Some (param_default pts 1))
              (mergeConfig (defaultConfig M) config) now"
  have s: "storage (snd (RateLimiter_consume M i pts config ns1 now)) = snd ?c"
    using False assms(1,2)
    by (simp add: RateLimiter_consume_def Let_def TokenBucketStrategy_def
        split: prod.splits sum.splits)
  have k: "limiter_storage_key (storageKeyPrefix (storage M)) i ns2
             \<noteq> base_buildKey (storageKeyPrefix (storage M))
                  (tb_buildKey ''tb'' (defaultKeyGenerator (sanitizeIdentifier i) ns1))"
    using assms(3) by (simp add: limiter_storage_key_def)
  show ?thesis unfolding s by (rule mem_consume_frame[OF k])
qed

text \<open>
  C7, amended. Two identifiers with the same sanitized form reach the same storage key, and
  every limiter operation returns the same result and the same limiter for both, under one
  namespace; \<open>1.2.3.4:443\<close> and \<open>1.2.3.4_443\<close> are such a pair. For one identifier, with
  the default key generator, two namespaces give the same storage key exactly when they
  are equal or each is missing or the empty string; when the keys differ, a \<open>consume\<close>
  under one namespace leaves the memory backend's entry of the other as it was.
\<close>

theorem sanitized_and_namespaced_keys:
  "(sanitizeIdentifier a = sanitizeIdentifier b \<longrightarrow>
       limiter_storage_key sp a ns = limiter_storage_key sp b ns
     \<and> RateLimiter_consume L a pts config ns now = RateLimiter_consume L b pts config ns now
     \<and> RateLimiter_getStatus L a config ns now = RateLimiter_getStatus L b config ns now
     \<and> RateLimiter_reset L a ns now = RateLimiter_reset L b ns now
     \<and> RateLimiter_block L a dur ns now = RateLimiter_block L b dur ns now
     \<and> RateLimiter_isBlocked L a ns now = RateLimiter_isBlocked L b ns now)
   \<and> sanitizeIdentifier ''1.2.3.4:443'' = ''1.2.3.4_443''
   \<and> sanitizeIdentifier ''1.2.3.4_443'' = ''1.2.3.4_443''
   \<and> ((limiter_storage_key sp i ns1 = limiter_storage_key sp i ns2) =
        (ns1 = ns2 \<or> ((ns1 = None \<or> ns1 = Some []) \<and> (ns2 = None \<or> ns2 = Some []))))
   \<and> (strategy M = TokenBucketStrategy MemoryStorage ''tb''
        \<and> keyGenerator M = defaultKeyGenerator
        \<and> limiter_storage_key (storageKeyPrefix (storage M)) i ns1
             \<noteq> limiter_storage_key (storageKeyPrefix (storage M)) i ns2 \<longrightarrow>
          cache (storage (snd (RateLimiter_consume M i pts config ns1 now)))
            (limiter_storage_key (storageKeyPrefix (storage M)) i ns2)
          = cache (storage M) (limiter_storage_key (storageKeyPrefix (storage M)) i ns2))"
proof -
  have A: "limiter_storage_key sp a ns = limiter_storage_key sp b ns
     \<and> RateLimiter_consume L a pts config ns now = RateLimiter_consume L b pts config ns now
     \<and> RateLimiter_getStatus L a config ns now = RateLimiter_getStatus L b config ns now
     \<and> RateLimiter_reset L a ns now = RateLimiter_reset L b ns now
     \<and> RateLimiter_block L a dur ns now = RateLimiter_block L b dur ns now
     \<and> RateLimiter_isBlocked L a ns now = RateLimiter_isBlocked L b ns now"
    if "sanitizeIdentifier a = sanitizeIdentifier b"
    using that
    by (simp add: limiter_storage_key_def RateLimiter_consume_def RateLimiter_getStatus_def
        RateLimiter_reset_def RateLimiter_block_def RateLimiter_isBlocked_def)
  have B: "sanitizeIdentifier ''1.2.3.4:443'' = ''1.2.3.4_443''"
          "sanitizeIdentifier ''1.2.3.4_443'' = ''1.2.3.4_443''"
    by (simp_all add: sanitizeIdentifier_def safeChar_def)
  show ?thesis
    using A B limiter_storage_key_eq_iff[of sp i ns1 ns2] limiter_consume_frame[of M i ns1 ns2 pts config now]
    by blast
qed

theorem sanitized_and_namespaced_keys_witness:
  "limiter_storage_key ''ratelimit'' ''1.2.3.4:443'' (Some ''login'') = ''ratelimit:tb:login:1.2.3.4_443'' \<and>
   limiter_storage_key ''ratelimit'' ''1.2.3.4_443'' (Some ''login'') = ''ratelimit:tb:login:1.2.3.4_443'' \<and>
   limiter_storage_key ''ratelimit'' ''1.2.3.4:443'' (Some ''signup'') = ''ratelimit:tb:signup:1.2.3.4_443'' \<and>
   RateLimiter_consume limiter1 ''1.2.3.4:443'' None None (Some ''login'') 0 =
     RateLimiter_consume limiter1 ''1.2.3.4_443'' None None (Some ''login'') 0 \<and>
   cache (storage (snd (RateLimiter_consume limiter1 ''1.2.3.4:443'' None None (Some ''login'') 0)))
     ''ratelimit:tb:signup:1.2.3.4_443'' = None \<and>
   cache (storage (snd (RateLimiter_consume limiter1 ''1.2.3.4:443'' None None (Some ''login'') 0)))
     ''ratelimit:tb:login:1.2.3.4_443'' \<noteq> None"
proof -
  note th = sanitized_and_namespaced_keys[of "''1.2.3.4:443''" "''1.2.3.4_443''" "''ratelimit''"
      "Some ''login''" limiter1 None None 0 0 "''1.2.3.4:443''" "Some ''login''" "Some ''signup''" limiter1]
  have k: "limiter_storage_key ''ratelimit'' ''1.2.3.4:443'' (Some ''login'') = ''ratelimit:tb:login:1.2.3.4_443''"
     "limiter_storage_key ''ratelimit'' ''1.2.3.4_443'' (Some ''login'') = ''ratelimit:tb:login:1.2.3.4_443''"
     "limiter_storage_key ''ratelimit'' ''1.2.3.4:443'' (Some ''signup'') = ''ratelimit:tb:signup:1.2.3.4_443''"
    by (simp_all add: limiter_storage_key_def base_buildKey_def tb_buildKey_def
        defaultKeyGenerator_def sanitizeIdentifier_def safeChar_def)
  have l: "strategy limiter1 = TokenBucketStrategy MemoryStorage ''tb''"
    "keyGenerator limiter1 = defaultKeyGenerator"
    "storageKeyPrefix (storage limiter1) = ''ratelimit''"
    "cache (storage limiter1) = Map.empty"
    by (simp_all add: limiter1_def new_RateLimiter_def new_MemoryRateLimitStorage_def)
  have sane: "sanitizeIdentifier ''1.2.3.4:443'' = sanitizeIdentifier ''1.2.3.4_443''"
    by (simp add: sanitizeIdentifier_def safeChar_def)
  have e: "RateLimiter_consume limiter1 ''1.2.3.4:443'' None None (Some ''login'') 0 =
     RateLimiter_consume limiter1 ''1.2.3.4_443'' None None (Some ''login'') 0"
    using th[THEN conjunct1, THEN mp, OF sane] by blast
  have f: "cache (storage (snd (RateLimiter_consume limiter1 ''1.2.3.4:443'' None None (Some ''login'') 0)))
     ''ratelimit:tb:signup:1.2.3.4_443'' = None"
    using th[THEN conjunct2, THEN conjunct2, THEN conjunct2, THEN conjunct2] by (simp add: l k)
  have w: "cache (storage (snd (RateLimiter_consume limiter1 ''1.2.3.4:443'' None None (Some ''login'') 0)))
     ''ratelimit:tb:login:1.2.3.4_443'' \<noteq> None"
    by (simp add: limiter1_def new_RateLimiter_def cfg1_def RateLimiter_consume_def
      Let_def shouldBypass_def sanitizeIdentifier_def safeChar_def defaultKeyGenerator_def
      mergeConfig_def param_default_def TokenBucketStrategy_def TokenBucketStrategy_consume_def
      MemoryStorage_def memory_get_def memory_set_def new_MemoryRateLimitStorage_def
      base_buildKey_def tb_buildKey_def blocked_at_def truthy_def refillTokens_def
      getRefillRate_def or_default_def)
  show ?thesis using k e f w by simp
qed

text \<open>
  C7 as stated fails: a missing namespace and the empty string are different values with
  one storage key.
\<close>

theorem namespaces_counterexample:
  "\<not> (\<forall>i ns1 ns2. ns1 \<noteq> ns2 \<longrightarrow>
         limiter_storage_key ''ratelimit'' i ns1 \<noteq> limiter_storage_key ''ratelimit'' i ns2)"
proof
  assume "\<forall>i ns1 ns2. ns1 \<noteq> ns2 \<longrightarrow>
         limiter_storage_key ''ratelimit'' i ns1 \<noteq> limiter_storage_key ''ratelimit'' i ns2"
  then have "limiter_storage_key ''ratelimit'' ''u1'' None
               \<noteq> limiter_storage_key ''ratelimit'' ''u1'' (Some [])"
    by blast
  then show False
    by (simp add: limiter_storage_key_def defaultKeyGenerator_def)
qed

section \<open>The balance stays within the capacity\<close>

lemma refill_bounds:
  assumes "0 \<le> tokens d" and "lastRefill d \<le> now"
      and "0 \<le> points config" and "0 < duration config"
  shows "0 \<le> tokens (refillTokens d config now) \<and>
         tokens (refillTokens d config now) \<le> points config"
proof -
  have "0 \<le> (now - lastRefill d) / 1000" using assms(2) by simp
  moreover have "0 \<le> points config / duration config" using assms(3,4) by simp
  ultimately have "0 \<le> (now - lastRefill d) / 1000 * (points config / duration config)"
    by (rule mult_nonneg_nonneg)
  then have "0 \<le> tokens d + (now - lastRefill d) / 1000 * (points config / duration config)"
    using assms(1) by simp
  then show ?thesis
    using assms(3) by (simp add: refillTokens_def getRefillRate_def Let_def)
qed

lemma stored_record_entry:
  assumes "stored_record st fk now = Some d"
  shows "\<exists>e. cache st fk = Some e \<and> data e = d"
  using assms by (cases "cache st fk") (simp_all add: stored_record_def split: if_splits)

lemma loaded_bounds:
  assumes "tokens_in_range config st" and "refilled_by t st" and "t \<le> now"
      and "0 \<le> points config"
  shows "0 \<le> tokens (loadedData (stored_record st fk now) config now) \<and>
         tokens (loadedData (stored_record st fk now) config now) \<le> points config \<and>
         lastRefill (loadedData (stored_record st fk now) config now) \<le> now"
proof (cases "stored_record st fk now")
  case None
  then show ?thesis using assms(4) by (simp add: loadedData_def)
next
  case (Some d)
  from stored_record_entry[OF Some] obtain e where e: "cache st fk = Some e" "data e = d" by blast
  have "0 \<le> tokens d \<and> tokens d \<le> points config"
    using assms(1) e by (auto simp: tokens_in_range_def)
  moreover have "lastRefill d \<le> t" using assms(2) e by (auto simp: refilled_by_def)
  ultimately show ?thesis using Some assms(3) by (simp add: loadedData_def)
qed

lemma get_keeps_entries:
  assumes "cache (snd (memory_get st key now)) k = Some e"
  shows "cache st k = Some e"
  using assms
  by (cases "cache st (base_buildKey (storageKeyPrefix st) key)")
     (simp_all add: memory_get_def Let_def split: if_splits)

lemma in_range_get:
  assumes "tokens_in_range config st"
  shows "tokens_in_range config (snd (memory_get st key now))"
  using assms get_keeps_entries unfolding tokens_in_range_def by blast

lemma refilled_get:
  assumes "refilled_by t st"
  shows "refilled_by t (snd (memory_get st key now))"
  using assms get_keeps_entries unfolding refilled_by_def by blast

lemma refilled_mono:
  assumes "refilled_by t st" and "t \<le> t'"
  shows "refilled_by t' st"
  using assms unfolding refilled_by_def by (meson order_trans)

lemma in_range_update:
  assumes "tokens_in_range config st" and "0 \<le> tokens d" and "tokens d \<le> points config"
  shows "tokens_in_range config (st\<lparr>cache := (cache st)(k \<mapsto> \<lparr>data = d, expiresAt = x\<rparr>)\<rparr>)"
  using assms by (auto simp: tokens_in_range_def)

lemma refilled_update:
  assumes "refilled_by t st" and "lastRefill d \<le> t"
  shows "refilled_by t (st\<lparr>cache := (cache st)(k \<mapsto> \<lparr>data = d, expiresAt = x\<rparr>)\<rparr>)"
  using assms by (auto simp: refilled_by_def)

lemma in_range_delete:
  assumes "tokens_in_range config st"
  shows "tokens_in_range config (st\<lparr>cache := (cache st)(k := None)\<rparr>)"
  using assms by (auto simp: tokens_in_range_def)

lemma refilled_delete:
  assumes "refilled_by t st"
  shows "refilled_by t (st\<lparr>cache := (cache st)(k := None)\<rparr>)"
  using assms by (auto simp: refilled_by_def)

lemma consume_keeps_range:
  assumes ir: "tokens_in_range config st" and rb: "refilled_by t st" and le: "t \<le> now"
      and pt: "0 \<le> points config" and du: "0 < duration config" and c: "0 \<le> cost"
  shows "tokens_in_range config
           (snd (TokenBucketStrategy_consume MemoryStorage kp st identifier (Some cost) config now))
       \<and> refilled_by now
           (snd (TokenBucketStrategy_consume MemoryStorage kp st identifier (Some cost) config now))"
proof -
  let ?key = "tb_buildKey kp identifier"
  let ?fk = "base_buildKey (storageKeyPrefix st) ?key"
  define d0 where "d0 = loadedData (stored_record st ?fk now) config now"
  define d1 where "d1 = refillTokens d0 config now"
  define st1 where "st1 = snd (memory_get st ?key now)"
  have g: "memory_get st ?key now = (Inr (stored_record st ?fk now), st1)"
    unfolding st1_def by (rule memory_get_pair)
  have ir1: "tokens_in_range config st1" unfolding st1_def using ir by (rule in_range_get)
  have rb1: "refilled_by now st1"
    unfolding st1_def using refilled_mono[OF rb le] by (rule refilled_get)
  have b0: "0 \<le> tokens d0" "tokens d0 \<le> points config" "lastRefill d0 \<le> now"
    using loaded_bounds[OF ir rb le pt, of ?fk] by (simp_all add: d0_def)
  have b1: "0 \<le> tokens d1" "tokens d1 \<le> points config"
    using refill_bounds[OF b0(1) b0(3) pt du] by (simp_all add: d1_def)
  have l1: "lastRefill d1 = now" by (simp add: d1_def refill_fields)
  show ?thesis
  proof (cases "blocked_at d0 now")
    case True
    show ?thesis
      unfolding mem_consume_blocked[OF g True[unfolded d0_def]] using ir1 rb1 by simp
  next
    case nb: False
    show ?thesis
    proof (cases "tokens d1 < param_default (Some cost) 1")
      case True
      have t: "tokens (rejectedData d1 config now) = tokens d1"
              "lastRefill (rejectedData d1 config now) = lastRefill d1"
        by (simp_all add: rejectedData_def)
      note cs = mem_consume_reject[OF g nb[unfolded d0_def] True[unfolded d1_def d0_def],
                  folded d0_def, folded d1_def]
      show ?thesis
        unfolding cs
        using in_range_update[OF ir1, of "rejectedData d1 config now"]
              refilled_update[OF rb1, of "rejectedData d1 config now"] b1 l1
        by (simp add: t)
    next
      case False
      then have en: "cost \<le> tokens d1" by (simp add: param_default_def)
      let ?d2 = "d1\<lparr>tokens := tokens d1 - param_default (Some cost) 1,
                     consumed := consumed d0 + param_default (Some cost) 1\<rparr>"
      have t: "0 \<le> tokens ?d2" "tokens ?d2 \<le> points config" "lastRefill ?d2 \<le> now"
        using en c b1 l1 by (simp_all add: param_default_def)
      note cs = mem_consume_accept[OF g nb[unfolded d0_def] False[unfolded d1_def d0_def],
                  folded d0_def, folded d1_def]
      show ?thesis
        unfolding cs
        using in_range_update[OF ir1 t(1,2)] refilled_update[OF rb1 t(3)]
        by simp
    qed
  qed
qed

lemma step_keeps_range:
  assumes ir: "tokens_in_range config st" and rb: "refilled_by t st" and le: "t \<le> now"
      and pt: "0 \<le> points config" and du: "0 < duration config"
      and c: "cost_nonneg (x, now)"
  shows "tokens_in_range config (apply_operation MemoryStorage kp config st (x, now))
       \<and> refilled_by now (apply_operation MemoryStorage kp config st (x, now))"
proof (cases x)
  case (Consume i cost)
  then have "0 \<le> cost" using c by simp
  from consume_keeps_range[OF ir rb le pt du this] show ?thesis by (simp add: Consume)
next
  case (GetStatus i)
  have "apply_operation MemoryStorage kp config st (x, now) = snd (memory_get st (tb_buildKey kp i) now)"
    by (simp add: GetStatus getStatus_state MemoryStorage_def)
  then show ?thesis
    using in_range_get[OF ir] refilled_get[OF refilled_mono[OF rb le]] by simp
next
  case (Block i d)
  have "apply_operation MemoryStorage kp config st (x, now) =
          st\<lparr>cache := (cache st)(base_buildKey (storageKeyPrefix st) (tb_buildKey kp i) \<mapsto>
               \<lparr>data = \<lparr>tokens = 0, lastRefill = now, consumed = 0,
                          blockUntil = Some (now + d * 1000)\<rparr>,
                expiresAt = now + (d + 60) * 1000\<rparr>)\<rparr>"
    by (simp add: Block TokenBucketStrategy_block_def MemoryStorage_def memory_set_def Let_def)
  then show ?thesis
    using in_range_update[OF ir, of "\<lparr>tokens = 0, lastRefill = now, consumed = 0,
                          blockUntil = Some (now + d * 1000)\<rparr>"]
          refilled_update[OF refilled_mono[OF rb le], of "\<lparr>tokens = 0, lastRefill = now, consumed = 0,
                          blockUntil = Some (now + d * 1000)\<rparr>"] pt
    by simp
next
  case (Reset i)
  have "apply_operation MemoryStorage kp config st (x, now) =
          st\<lparr>cache := (cache st)(base_buildKey (storageKeyPrefix st) (tb_buildKey kp i) := None)\<rparr>"
    by (simp add: Reset TokenBucketStrategy_reset_def MemoryStorage_def memory_delete_def Let_def)
  then show ?thesis
    using in_range_delete[OF ir] refilled_delete[OF refilled_mono[OF rb le]] by simp
qed

lemma run_keeps_range:
  assumes pt: "0 \<le> points config" and du: "0 < duration config"
  shows "tokens_in_range config st \<Longrightarrow> refilled_by t st \<Longrightarrow> times_from t ops \<Longrightarrow>
         \<forall>x \<in> set ops. cost_nonneg x \<Longrightarrow>
         tokens_in_range config (run_operations MemoryStorage kp config st ops)"
proof (induction ops arbitrary: st t)
  case Nil
  then show ?case by (simp add: run_operations_def)
next
  case (Cons a ops)
  obtain x now where a: "a = (x, now)" by (cases a)
  have le: "t \<le> now" and tf: "times_from now ops" using Cons.prems(3) by (simp_all add: a)
  have c: "cost_nonneg (x, now)" and cs: "\<forall>x \<in> set ops. cost_nonneg x"
    using Cons.prems(4) by (simp_all add: a)
  from step_keeps_range[OF Cons.prems(1,2) le pt du c, of kp]
  have s: "tokens_in_range config (apply_operation MemoryStorage kp config st (x, now))"
          "refilled_by now (apply_operation MemoryStorage kp config st (x, now))"
    by simp_all
  from Cons.IH[OF s tf cs] show ?case by (simp add: run_operations_def a)
qed

lemma times_from_take: "times_from t ops \<Longrightarrow> times_from t (take n ops)"
proof (induction ops arbitrary: t n)
  case Nil
  then show ?case by simp
next
  case (Cons a ops)
  obtain x now where a: "a = (x, now)" by (cases a)
  show ?case using Cons by (cases n) (simp_all add: a)
qed

text \<open>
  C9. A valid config, a memory backend whose records all have \<open>0 \<le> tokens \<le> points\<close> and
  a last refill not after \<open>t\<close> (the empty backend is one), and a sequence of \<open>consume\<close>
  (cost not negative), \<open>getStatus\<close>, \<open>block\<close> and \<open>reset\<close> calls on any identifiers, at
  times that start at \<open>t\<close> or later and never decrease: after every prefix of the
  sequence, every record in the backend has \<open>0 \<le> tokens \<le> points\<close>.
\<close>

theorem persisted_tokens_in_range:
  assumes "1 \<le> points config" and "0 < duration config"
      and "tokens_in_range config st" and "refilled_by t st"
      and "times_from t ops" and "\<forall>x \<in> set ops. cost_nonneg x"
  shows "\<forall>n \<le> length ops.
           tokens_in_range config (run_operations MemoryStorage kp config st (take n ops))"
proof (intro allI impI)
  fix n assume "n \<le> length ops"
  have pt: "0 \<le> points config" using assms(1) by simp
  have tf: "times_from t (take n ops)" using assms(5) by (rule times_from_take)
  have cs: "\<forall>x \<in> set (take n ops). cost_nonneg x"
    using assms(6) by (meson in_set_takeD)
  show "tokens_in_range config (run_operations MemoryStorage kp config st (take n ops))"
    using run_keeps_range[OF pt assms(2) assms(3,4) tf cs] .
qed

theorem persisted_tokens_in_range_witness:
  "times_from 0 opsExample \<and> list_all cost_nonneg opsExample \<and>
   tokens_in_range cfg2 (run_operations MemoryStorage ''tb'' cfg2 (new_MemoryRateLimitStorage None) opsExample) \<and>
   map_option (\<lambda>e. tokens (data e))
     (cache (run_operations MemoryStorage ''tb'' cfg2 (new_MemoryRateLimitStorage None) (take 3 opsExample))
        ''ratelimit:tb:u1'') = Some 0 \<and>
   map_option (\<lambda>e. tokens (data e))
     (cache (run_operations MemoryStorage ''tb'' cfg2 (new_MemoryRateLimitStorage None) opsExample)
        ''ratelimit:tb:u1'') = Some (1 / 2)"
proof -
  have h: "1 \<le> points cfg2" "0 < duration cfg2"
    "tokens_in_range cfg2 (new_MemoryRateLimitStorage None)"
    "refilled_by 0 (new_MemoryRateLimitStorage None)"
    "times_from 0 opsExample" "\<forall>x \<in> set opsExample. cost_nonneg x"
    by (simp_all add: cfg2_def tokens_in_range_def refilled_by_def new_MemoryRateLimitStorage_def
        opsExample_def)
  have len: "length opsExample \<le> length opsExample" by simp
  have full: "tokens_in_range cfg2 (run_operations MemoryStorage ''tb'' cfg2 (new_MemoryRateLimitStorage None) opsExample)"
    using persisted_tokens_in_range[OF h, of "''tb''", THEN spec[where x="length opsExample"]] by simp
  have ev: "map_option (\<lambda>e. tokens (data e))
     (cache (run_operations MemoryStorage ''tb'' cfg2 (new_MemoryRateLimitStorage None) (take 3 opsExample))
        ''ratelimit:tb:u1'') = Some 0"
     "map_option (\<lambda>e. tokens (data e))
     (cache (run_operations MemoryStorage ''tb'' cfg2 (new_MemoryRateLimitStorage None) opsExample)
        ''ratelimit:tb:u1'') = Some (1 / 2)"
    by (simp_all add: opsExample_def run_operations_def cfg2_def new_MemoryRateLimitStorage_def
        TokenBucketStrategy_consume_def TokenBucketStrategy_getStatus_def TokenBucketStrategy_block_def
        TokenBucketStrategy_reset_def MemoryStorage_def memory_get_def memory_set_def memory_delete_def
        Let_def base_buildKey_def tb_buildKey_def blocked_at_def truthy_def refillTokens_def
        getRefillRate_def or_default_def param_default_def)
  show ?thesis using h(5,6) full ev by (simp add: list_all_iff)
qed

end
